theory Spec2Isabelle
  imports Main "HOL-Library.Word"
begin

unbundle bit_operations_syntax

section \<open>The data model of \<open>adb.c\<close>\<close>

text \<open>
  The ADB host engine of \<open>src/mcu/adb.c\<close> keeps its state in four globals
  (\<open>adbDevice\<close>, \<open>connections\<close>, \<open>connected\<close>, \<open>eventHandler\<close>) and talks to the USB
  layer and the AVR runtime through functions that are declared elsewhere. The model
  threads one state record through every function. The outside world (USB bus, clock) is
  an abstract value \<open>'w\<close> that only the platform functions read and change.

  Pointers are modelled by identity: a \<open>usb_device *\<close> and an \<open>adb_eventHandler *\<close> are
  \<open>nat option\<close> (\<open>None\<close> is \<open>NULL\<close>), an \<open>adb_connection *\<close> returned by the engine is the
  index of the slot in \<open>connections\<close>. A buffer passed as pointer and length is the list
  of its bytes.
\<close>

type_synonym uint8_t = "8 word"
type_synonym uint16_t = "16 word"
type_synonym uint32_t = "32 word"
type_synonym usb_device_ptr = "nat option"
type_synonym handler_ptr = "nat option"

text \<open>
  Modelled from the spec: the header \<open>adb.h\<close>, which declares \<open>adb_message\<close>,
  \<open>adb_connection\<close> and the enumerations, is not among the sources. The enumerators and
  record fields below are the ones that \<open>adb.c\<close> uses. \<open>adb_message\<close> is the wire header of
  the spec: six 32-bit fields in the order command, arg0, arg1, payload length, payload
  checksum, magic, 24 bytes in all. The fields \<open>dataSize\<close> and \<open>dataRead\<close> of
  \<open>adb_connection\<close> are unsigned counters whose width the header fixes; the model leaves
  the width \<open>'c\<close> open. \<open>USB_OTHER\<close> stands for every USB event that is neither a connect
  nor a disconnect.
\<close>

datatype adb_connectionStatus =
  ADB_UNUSED | ADB_CLOSED | ADB_OPEN | ADB_OPENING | ADB_RECEIVING | ADB_WRITING

datatype adb_eventType =
  ADB_CONNECT | ADB_CONNECTION_OPEN | ADB_CONNECTION_CLOSE | ADB_CONNECTION_FAILED
  | ADB_CONNECTION_RECEIVE

datatype usb_eventType = USB_CONNECT | USB_DISCONNECT | USB_OTHER


record adb_message =
  command :: uint32_t
  arg0 :: uint32_t
  arg1 :: uint32_t
  data_length :: uint32_t
  data_check :: uint32_t
  magic :: uint32_t

record (overloaded) 'c adb_connection =
  connectionString :: string
  localID :: uint32_t
  remoteID :: uint32_t
  lastConnectionAttempt :: uint32_t
  dataSize :: "'c word"
  dataRead :: "'c word"
  status :: adb_connectionStatus
  reconnect :: bool
  connection_eventHandler :: handler_ptr

text \<open>
  What the engine does to the outside is recorded in a trace: every \<open>usb_bulkWrite\<close>
  call with the bytes it sends, and every \<open>adb_fireEvent\<close> call with its arguments and
  the handlers it invokes, in order. Handlers are application code; the model records
  that they are called and assumes that they do not call back into the engine.
\<close>

datatype action =
  BulkWrite usb_device_ptr "uint8_t list"
  | Event "nat option" adb_eventType uint16_t "uint8_t list" "nat list"

record (overloaded) ('c, 'w) adb_state =
  adbDevice :: usb_device_ptr
  connections :: "'c adb_connection list"
  connected :: bool
  eventHandler :: handler_ptr
  world :: 'w
  trace :: "action list"

text \<open>
  The constants of \<open>adb.h\<close> and the functions of the USB layer and of the AVR runtime
  are parameters of the model. \<open>usb_bulkRead\<close> returns its \<open>int\<close> result together with
  the contents of the caller's buffer after the call (where the list is shorter than
  the engine reads, the missing bytes read as zero); \<open>usb_bulkWrite\<close> returns its
  result code. \<open>usb_poll\<close> returns the hotplug events that the USB layer delivers to the
  registered handler while it runs, and \<open>usb_enumerate\<close> stands for the descriptor
  parsing and endpoint set-up of \<open>adb_isAdbDevice\<close> and \<open>adb_initUsb\<close>, whose result is
  whether the device is an ADB device. The loop indices of \<open>adb.c\<close> are \<open>int\<close>s, so
  \<open>ADB_MAX_CONNECTIONS\<close> is taken to be below \<open>2^15\<close> where its size matters.
\<close>

record 'w platform =
  A_CNXN :: uint32_t
  A_OPEN :: uint32_t
  A_OKAY :: uint32_t
  A_CLSE :: uint32_t
  A_WRTE :: uint32_t
  ADB_USB_PACKETSIZE :: nat
  ADB_CONNECTSTRING_LENGTH :: nat
  ADB_MAX_CONNECTIONS :: nat
  ADB_CONNECTION_RETRY_TIME :: uint32_t
  usb_bulkRead :: "usb_device_ptr \<Rightarrow> nat \<Rightarrow> bool \<Rightarrow> 'w \<Rightarrow> (int \<times> uint8_t list) \<times> 'w"
  usb_bulkWrite :: "usb_device_ptr \<Rightarrow> uint8_t list \<Rightarrow> 'w \<Rightarrow> int \<times> 'w"
  usb_poll :: "'w \<Rightarrow> (usb_device_ptr \<times> usb_eventType) list \<times> 'w"
  usb_enumerate :: "usb_device_ptr \<Rightarrow> 'w \<Rightarrow> bool \<times> 'w"
  usb_init :: "'w \<Rightarrow> 'w"
  avr_millis :: "'w \<Rightarrow> uint32_t \<times> 'w"
  avr_delay :: "nat \<Rightarrow> 'w \<Rightarrow> 'w"

section \<open>Message codec\<close>

text \<open>
  \<open>(uint8_t*)&message\<close> and \<open>memcpy(message, buf, sizeof(adb_message))\<close>: the six fields
  in declaration order, each least significant byte first.
\<close>

definition word32_bytes :: "uint32_t \<Rightarrow> uint8_t list" where
  "word32_bytes w =
     [ucast w, ucast (drop_bit 8 w), ucast (drop_bit 16 w), ucast (drop_bit 24 w)]"

fun le_word32 :: "uint8_t list \<Rightarrow> uint32_t" where
  "le_word32 [] = 0"
| "le_word32 (b # bs) = ucast b OR push_bit 8 (le_word32 bs)"

definition message_bytes :: "adb_message \<Rightarrow> uint8_t list" where
  "message_bytes m =
     word32_bytes (command m) @ word32_bytes (arg0 m) @ word32_bytes (arg1 m) @
     word32_bytes (data_length m) @ word32_bytes (data_check m) @ word32_bytes (magic m)"

definition message_of_bytes :: "uint8_t list \<Rightarrow> adb_message" where
  "message_of_bytes buf =
     \<lparr>command = le_word32 (take 4 buf),
      arg0 = le_word32 (take 4 (drop 4 buf)),
      arg1 = le_word32 (take 4 (drop 8 buf)),
      data_length = le_word32 (take 4 (drop 12 buf)),
      data_check = le_word32 (take 4 (drop 16 buf)),
      magic = le_word32 (take 4 (drop 20 buf))\<rparr>"

text \<open>The calls into the USB layer, with the write recorded in the trace.\<close>

definition bulkWrite ::
  "'w platform \<Rightarrow> usb_device_ptr \<Rightarrow> uint8_t list \<Rightarrow> ('c::len, 'w) adb_state
   \<Rightarrow> int \<times> ('c, 'w) adb_state" where
  "bulkWrite P device data s =
     (case usb_bulkWrite P device data (world s) of
        (r, w) \<Rightarrow> (r, s\<lparr>world := w, trace := trace s @ [BulkWrite device data]\<rparr>))"

definition bulkRead ::
  "'w platform \<Rightarrow> usb_device_ptr \<Rightarrow> nat \<Rightarrow> bool \<Rightarrow> ('c::len, 'w) adb_state
   \<Rightarrow> (int \<times> uint8_t list) \<times> ('c, 'w) adb_state" where
  "bulkRead P device len poll s =
     (case usb_bulkRead P device len poll (world s) of
        (r, w) \<Rightarrow> (r, s\<lparr>world := w\<rparr>))"

text \<open>
  \<open>adb_fireEvent\<close>: the global handler first, if set, then the handler of the
  connection, if there is a connection and its handler is set. \<open>event_handlers\<close> is the
  list of the handlers that one call invokes.
\<close>

definition event_handlers :: "nat option \<Rightarrow> ('c::len, 'w) adb_state \<Rightarrow> nat list" where
  "event_handlers connection s =
     (case eventHandler s of None \<Rightarrow> [] | Some h \<Rightarrow> [h]) @
     (case connection of
        None \<Rightarrow> []
      | Some i \<Rightarrow>
          (case connection_eventHandler (connections s ! i) of
             None \<Rightarrow> []
           | Some h \<Rightarrow> [h]))"

definition adb_fireEvent ::
  "nat option \<Rightarrow> adb_eventType \<Rightarrow> uint16_t \<Rightarrow> uint8_t list \<Rightarrow> ('c::len, 'w) adb_state
   \<Rightarrow> ('c, 'w) adb_state" where
  "adb_fireEvent connection type len data s =
     s\<lparr>trace := trace s @ [Event connection type len data (event_handlers connection s)]\<rparr>"

text \<open>\<open>adb_writeEmptyMessage\<close>\<close>

definition adb_writeEmptyMessage ::
  "'w platform \<Rightarrow> usb_device_ptr \<Rightarrow> uint32_t \<Rightarrow> uint32_t \<Rightarrow> uint32_t \<Rightarrow> ('c::len, 'w) adb_state
   \<Rightarrow> int \<times> ('c, 'w) adb_state" where
  "adb_writeEmptyMessage P device cmd a0 a1 s =
     bulkWrite P device
       (message_bytes
          \<lparr>command = cmd, arg0 = a0, arg1 = a1, data_length = 0, data_check = 0,
           magic = cmd XOR 0xffffffff\<rparr>) s"

text \<open>
  \<open>adb_writeMessage\<close>. The arguments \<open>length\<close> and \<open>data\<close> are the list of the
  \<open>length\<close> bytes at \<open>data\<close>; only a list shorter than \<open>2^32\<close> stands for a call of
  the C function. The checksum loop \<open>while (count-- > 0) sum += *x++\<close> walks the
  payload; \<open>rcode\<close> is a \<open>uint8_t\<close>, so the result of \<open>usb_bulkWrite\<close> is cut to its low
  eight bits.
\<close>

fun data_sum :: "uint8_t list \<Rightarrow> uint32_t \<Rightarrow> uint32_t" where
  "data_sum [] acc = acc"
| "data_sum (b # x) acc = data_sum x (acc + ucast b)"

definition adb_writeMessage ::
  "'w platform \<Rightarrow> usb_device_ptr \<Rightarrow> uint32_t \<Rightarrow> uint32_t \<Rightarrow> uint32_t \<Rightarrow> uint8_t list
   \<Rightarrow> ('c::len, 'w) adb_state \<Rightarrow> int \<times> ('c, 'w) adb_state" where
  "adb_writeMessage P device cmd a0 a1 data s =
     (let message =
            \<lparr>command = cmd, arg0 = a0, arg1 = a1, data_length = of_nat (length data),
             data_check = data_sum data 0, magic = cmd XOR 0xffffffff\<rparr>
      in case bulkWrite P device (message_bytes message) s of
           (r1, s1) \<Rightarrow>
             if r1 mod 256 \<noteq> 0 then (r1 mod 256, s1)
             else (case bulkWrite P device data s1 of (r2, s2) \<Rightarrow> (r2 mod 256, s2)))"

text \<open>
  \<open>adb_writeStringMessage\<close>: the payload is the string with its terminating zero,
  \<open>strlen(str) + 1\<close> bytes.
\<close>

definition string_bytes :: "string \<Rightarrow> uint8_t list" where
  "string_bytes str = map (\<lambda>c. of_nat (of_char c)) str @ [0]"

definition adb_writeStringMessage ::
  "'w platform \<Rightarrow> usb_device_ptr \<Rightarrow> uint32_t \<Rightarrow> uint32_t \<Rightarrow> uint32_t \<Rightarrow> string
   \<Rightarrow> ('c::len, 'w) adb_state \<Rightarrow> int \<times> ('c, 'w) adb_state" where
  "adb_writeStringMessage P device cmd a0 a1 str s =
     adb_writeMessage P device cmd a0 a1 (string_bytes str) s"

text \<open>
  \<open>adb_pollMessage\<close>: the \<open>boolean\<close> result and the \<open>message\<close> out-parameter together
  are an option; \<open>None\<close> is \<open>false\<close>.
\<close>

definition adb_pollMessage ::
  "'w platform \<Rightarrow> bool \<Rightarrow> ('c::len, 'w) adb_state
   \<Rightarrow> adb_message option \<times> ('c, 'w) adb_state" where
  "adb_pollMessage P poll s =
     (case bulkRead P (adbDevice s) (ADB_USB_PACKETSIZE P) poll s of
        ((bytesRead, buf), s1) \<Rightarrow>
          if bytesRead < 0 then (None, s1)
          else
            let message = message_of_bytes buf
            in if magic message \<noteq> (command message XOR 0xffffffff) then (None, s1)
               else if bytesRead \<noteq> 24 then (None, s1)
               else (Some message, s1))"

section \<open>Connection table\<close>

text \<open>
  \<open>connection->field = value\<close> for the connection in slot \<open>i\<close>. A handle is valid when
  \<open>i\<close> is below the number of slots; the statements about a slot take it in range.
\<close>

definition update_connection ::
  "nat \<Rightarrow> ('c adb_connection \<Rightarrow> 'c adb_connection) \<Rightarrow> ('c::len, 'w) adb_state
   \<Rightarrow> ('c, 'w) adb_state" where
  "update_connection i f s = s\<lparr>connections := (connections s)[i := f (connections s ! i)]\<rparr>"

text \<open>
  \<open>adb_addConnection\<close>: the length check, then the scan for the first slot whose status
  is \<open>ADB_UNUSED\<close>. The result is the index of the slot, \<open>None\<close> for \<open>NULL\<close>.
\<close>

function adb_addConnection_scan ::
  "'w platform \<Rightarrow> string \<Rightarrow> bool \<Rightarrow> handler_ptr \<Rightarrow> nat \<Rightarrow> ('c::len, 'w) adb_state
   \<Rightarrow> nat option \<times> ('c, 'w) adb_state" where
  "adb_addConnection_scan P str rc handler index s =
     (if index < ADB_MAX_CONNECTIONS P then
        if status (connections s ! index) = ADB_UNUSED then
          (Some index,
           update_connection index
             (\<lambda>c. c\<lparr>connectionString := str,
                     localID := of_nat (index + 1),
                     status := ADB_CLOSED,
                     lastConnectionAttempt := 0,
                     reconnect := rc,
                     connection_eventHandler := handler\<rparr>) s)
        else adb_addConnection_scan P str rc handler (index + 1) s
      else (None, s))"
  by pat_completeness auto
termination
  by (relation "measure (\<lambda>(P, str, rc, h, index, s). ADB_MAX_CONNECTIONS P - index)") auto

declare adb_addConnection_scan.simps [simp del]

definition adb_addConnection ::
  "'w platform \<Rightarrow> string \<Rightarrow> bool \<Rightarrow> handler_ptr \<Rightarrow> ('c::len, 'w) adb_state
   \<Rightarrow> nat option \<times> ('c, 'w) adb_state" where
  "adb_addConnection P str rc handler s =
     (if length str + 1 > ADB_CONNECTSTRING_LENGTH P then (None, s)
      else adb_addConnection_scan P str rc handler 0 s)"

text \<open>
  \<open>adb_openClosedConnections\<close>: one iteration of the loop for slot \<open>i\<close>, and the loop
  over all slots. \<open>avr_millis\<close> is read once for the test and once more for the record
  of the attempt.
\<close>

definition adb_openClosedConnections_iter ::
  "'w platform \<Rightarrow> nat \<Rightarrow> ('c::len, 'w) adb_state \<Rightarrow> ('c, 'w) adb_state" where
  "adb_openClosedConnections_iter P i s =
     (case avr_millis P (world s) of
        (now, w1) \<Rightarrow>
          let s1 = s\<lparr>world := w1\<rparr>;
              timeSinceLastConnect = now - lastConnectionAttempt (connections s1 ! i)
          in if status (connections s1 ! i) = ADB_CLOSED
                \<and> timeSinceLastConnect > ADB_CONNECTION_RETRY_TIME P
             then
               (case adb_writeStringMessage P (adbDevice s1) (A_OPEN P)
                       (localID (connections s1 ! i)) 0
                       (connectionString (connections s1 ! i)) s1 of
                  (rcode, s2) \<Rightarrow>
                    (case avr_millis P (world s2) of
                       (now2, w3) \<Rightarrow>
                         update_connection i
                           (\<lambda>c. c\<lparr>lastConnectionAttempt := now2, status := ADB_OPENING\<rparr>)
                           (s2\<lparr>world := w3\<rparr>)))
             else s1)"

definition adb_openClosedConnections ::
  "'w platform \<Rightarrow> ('c::len, 'w) adb_state \<Rightarrow> ('c, 'w) adb_state" where
  "adb_openClosedConnections P s =
     fold (adb_openClosedConnections_iter P) [0..<ADB_MAX_CONNECTIONS P] s"

text \<open>\<open>adb_handleOkay\<close>\<close>

definition adb_handleOkay ::
  "nat \<Rightarrow> adb_message \<Rightarrow> ('c::len, 'w) adb_state \<Rightarrow> ('c, 'w) adb_state" where
  "adb_handleOkay i message s =
     (let s1 = (if status (connections s ! i) = ADB_OPENING
                then adb_fireEvent (Some i) ADB_CONNECTION_OPEN 0 []
                       (update_connection i
                          (\<lambda>c. c\<lparr>status := ADB_OPEN, remoteID := arg0 message\<rparr>) s)
                else s)
      in if status (connections s1 ! i) = ADB_WRITING
         then update_connection i (\<lambda>c. c\<lparr>status := ADB_OPEN\<rparr>) s1
         else s1)"

text \<open>\<open>adb_handleClose\<close>\<close>

definition adb_handleClose :: "nat \<Rightarrow> ('c::len, 'w) adb_state \<Rightarrow> ('c, 'w) adb_state" where
  "adb_handleClose i s =
     (let s1 = (if status (connections s ! i) = ADB_OPENING
                then adb_fireEvent (Some i) ADB_CONNECTION_FAILED 0 [] s
                else adb_fireEvent (Some i) ADB_CONNECTION_CLOSE 0 [] s)
      in if reconnect (connections s1 ! i)
         then update_connection i (\<lambda>c. c\<lparr>status := ADB_CLOSED\<rparr>) s1
         else update_connection i (\<lambda>c. c\<lparr>status := ADB_UNUSED\<rparr>) s1)"

text \<open>
  \<open>adb_handleWrite\<close>. One pass through the body of the \<open>while (bytesLeft > 0)\<close> loop
  gives the new \<open>bytesLeft\<close> and the new state: \<open>len\<close> bytes are requested, \<open>dataRead\<close>
  grows by \<open>len\<close>, the event carries \<open>len\<close> bytes of \<open>buf\<close>, and \<open>bytesLeft\<close> shrinks by
  the \<open>int\<close> that the read returned, converted to \<open>uint32_t\<close>. The loop may run forever;
  then the result is \<open>None\<close>.
\<close>

definition adb_handleWrite_body ::
  "'w platform \<Rightarrow> nat \<Rightarrow> uint32_t \<Rightarrow> ('c::len, 'w) adb_state
   \<Rightarrow> uint32_t \<times> ('c, 'w) adb_state" where
  "adb_handleWrite_body P i bytesLeft s =
     (let len = (if unat bytesLeft < ADB_USB_PACKETSIZE P then unat bytesLeft
                 else ADB_USB_PACKETSIZE P)
      in case bulkRead P (adbDevice s) len False s of
           ((bytesRead, buf), s1) \<Rightarrow>
             (bytesLeft - of_int bytesRead,
              adb_fireEvent (Some i) ADB_CONNECTION_RECEIVE (of_nat len) (take len buf)
                (update_connection i (\<lambda>c. c\<lparr>dataRead := dataRead c + of_nat len\<rparr>) s1)))"

partial_function (option) adb_handleWrite_loop ::
  "'w platform \<Rightarrow> nat \<Rightarrow> uint32_t \<Rightarrow> ('c::len, 'w) adb_state \<Rightarrow> ('c, 'w) adb_state option"
  where
  "adb_handleWrite_loop P i bytesLeft s =
     (if bytesLeft > 0 then
        (case adb_handleWrite_body P i bytesLeft s of
           (bytesLeft', s') \<Rightarrow> adb_handleWrite_loop P i bytesLeft' s')
      else Some s)"

declare adb_handleWrite_loop.simps [code]

definition adb_handleWrite ::
  "'w platform \<Rightarrow> nat \<Rightarrow> adb_message \<Rightarrow> ('c::len, 'w) adb_state
   \<Rightarrow> ('c, 'w) adb_state option" where
  "adb_handleWrite P i message s =
     (let previousStatus = status (connections s ! i);
          s1 = update_connection i
                 (\<lambda>c. c\<lparr>status := ADB_RECEIVING, dataRead := 0,
                         dataSize := ucast (data_length message)\<rparr>) s
      in case adb_handleWrite_loop P i (data_length message) s1 of
           None \<Rightarrow> None
         | Some s2 \<Rightarrow>
             (case adb_writeEmptyMessage P (adbDevice s2) (A_OKAY P) (arg1 message)
                     (arg0 message) s2 of
                (rcode, s3) \<Rightarrow>
                  Some (update_connection i (\<lambda>c. c\<lparr>status := previousStatus\<rparr>) s3)))"

text \<open>\<open>adb_closeAll\<close>\<close>

definition adb_closeAll_iter :: "nat \<Rightarrow> ('c::len, 'w) adb_state \<Rightarrow> ('c, 'w) adb_state" where
  "adb_closeAll_iter i s =
     (if \<not> (status (connections s ! i) = ADB_UNUSED \<or> status (connections s ! i) = ADB_CLOSED)
      then adb_handleClose i s else s)"

definition adb_closeAll ::
  "'w platform \<Rightarrow> ('c::len, 'w) adb_state \<Rightarrow> ('c, 'w) adb_state" where
  "adb_closeAll P s = fold adb_closeAll_iter [0..<ADB_MAX_CONNECTIONS P] s"

text \<open>\<open>adb_handleConnect\<close>, with \<open>MAX_BUF_SIZE = 256\<close>.\<close>

definition adb_handleConnect ::
  "'w platform \<Rightarrow> adb_message \<Rightarrow> ('c::len, 'w) adb_state \<Rightarrow> ('c, 'w) adb_state" where
  "adb_handleConnect P message s =
     (let len = (ucast (if data_length message < 256 then data_length message else 256)
                 :: uint16_t)
      in case bulkRead P (adbDevice s) (unat len) False s of
           ((bytesRead, buf), s1) \<Rightarrow>
             adb_fireEvent None ADB_CONNECT len (take (unat len) buf)
               (s1\<lparr>connected := True\<rparr>))"

text \<open>\<open>adb_usbEventHandler\<close>\<close>

definition adb_usbEventHandler ::
  "'w platform \<Rightarrow> usb_device_ptr \<Rightarrow> usb_eventType \<Rightarrow> ('c::len, 'w) adb_state
   \<Rightarrow> ('c, 'w) adb_state" where
  "adb_usbEventHandler P device event s =
     (case event of
        USB_CONNECT \<Rightarrow>
          (case usb_enumerate P device (world s) of
             (isAdb, w) \<Rightarrow>
               if isAdb then s\<lparr>adbDevice := device, world := w\<rparr> else s\<lparr>world := w\<rparr>)
      | USB_DISCONNECT \<Rightarrow>
          if device = adbDevice s
          then (adb_closeAll P s)\<lparr>adbDevice := None, connected := False\<rparr>
          else s
      | USB_OTHER \<Rightarrow> s)"

text \<open>\<open>adb_write\<close> and \<open>adb_writeString\<close>\<close>

definition adb_write ::
  "'w platform \<Rightarrow> nat \<Rightarrow> uint8_t list \<Rightarrow> ('c::len, 'w) adb_state
   \<Rightarrow> int \<times> ('c, 'w) adb_state" where
  "adb_write P i data s =
     (if adbDevice s = None \<or> \<not> connected s then (- 1, s)
      else if status (connections s ! i) \<noteq> ADB_OPEN then (- 2, s)
      else
        (case adb_writeMessage P (adbDevice s) (A_WRTE P) (localID (connections s ! i))
                (remoteID (connections s ! i)) data s of
           (ret, s1) \<Rightarrow>
             if ret = 0 then (ret, update_connection i (\<lambda>c. c\<lparr>status := ADB_WRITING\<rparr>) s1)
             else (ret, s1)))"

definition adb_writeString ::
  "'w platform \<Rightarrow> nat \<Rightarrow> string \<Rightarrow> ('c::len, 'w) adb_state
   \<Rightarrow> int \<times> ('c, 'w) adb_state" where
  "adb_writeString P i str s =
     (if adbDevice s = None \<or> \<not> connected s then (- 1, s)
      else if status (connections s ! i) \<noteq> ADB_OPEN then (- 2, s)
      else
        (case adb_writeStringMessage P (adbDevice s) (A_WRTE P)
                (localID (connections s ! i)) (remoteID (connections s ! i)) str s of
           (ret, s1) \<Rightarrow>
             if ret = 0 then (ret, update_connection i (\<lambda>c. c\<lparr>status := ADB_WRITING\<rparr>) s1)
             else (ret, s1)))"

section \<open>Protocol engine\<close>

text \<open>
  \<open>adb_poll\<close>: the dispatch of one message to slot \<open>i\<close> (the body of the last loop), the
  loop over the slots, and the whole step. The result is \<open>None\<close> when the reassembly
  loop of \<open>adb_handleWrite\<close> does not return.
\<close>

definition adb_poll_dispatch ::
  "'w platform \<Rightarrow> adb_message \<Rightarrow> nat \<Rightarrow> ('c::len, 'w) adb_state
   \<Rightarrow> ('c, 'w) adb_state option" where
  "adb_poll_dispatch P message i s =
     (if status (connections s ! i) \<noteq> ADB_UNUSED
         \<and> localID (connections s ! i) = arg1 message
      then
        if command message = A_OKAY P then Some (adb_handleOkay i message s)
        else if command message = A_CLSE P then Some (adb_handleClose i s)
        else if command message = A_WRTE P then adb_handleWrite P i message s
        else Some s
      else Some s)"

fun adb_poll_loop ::
  "'w platform \<Rightarrow> adb_message \<Rightarrow> nat list \<Rightarrow> ('c::len, 'w) adb_state
   \<Rightarrow> ('c, 'w) adb_state option" where
  "adb_poll_loop P message [] s = Some s"
| "adb_poll_loop P message (i # is) s =
     (case adb_poll_dispatch P message i s of
        None \<Rightarrow> None
      | Some s' \<Rightarrow> adb_poll_loop P message is s')"

definition adb_poll ::
  "'w platform \<Rightarrow> ('c::len, 'w) adb_state \<Rightarrow> ('c, 'w) adb_state option" where
  "adb_poll P s =
     (case usb_poll P (world s) of
        (events, w) \<Rightarrow>
          (let s1 = fold (\<lambda>(device, event). adb_usbEventHandler P device event) events
                      (s\<lparr>world := w\<rparr>)
           in if adbDevice s1 = None then Some s1
              else
                (let s2 = (if \<not> connected s1
                           then (case adb_writeStringMessage P (adbDevice s1) (A_CNXN P)
                                        0x01000000 4096 ''host::microbridge'' s1 of
                                   (rcode, t) \<Rightarrow> t\<lparr>world := avr_delay P 500 (world t)\<rparr>)
                           else s1);
                     s3 = (if connected s2 then adb_openClosedConnections P s2 else s2)
                 in (case adb_pollMessage P True s3 of
                       (None, s4) \<Rightarrow> Some s4
                     | (Some message, s4) \<Rightarrow>
                         adb_poll_loop P message [0..<ADB_MAX_CONNECTIONS P]
                           (if command message = A_CNXN P
                            then adb_handleConnect P message s4
                            else s4)))))"

text \<open>\<open>adb_setEventHandler\<close> and \<open>adb_init\<close>\<close>

definition adb_setEventHandler ::
  "handler_ptr \<Rightarrow> ('c::len, 'w) adb_state \<Rightarrow> ('c, 'w) adb_state" where
  "adb_setEventHandler handler s = s\<lparr>eventHandler := handler\<rparr>"

definition adb_init :: "'w platform \<Rightarrow> ('c::len, 'w) adb_state \<Rightarrow> ('c, 'w) adb_state" where
  "adb_init P s = s\<lparr>adbDevice := None, connected := False, world := usb_init P (world s)\<rparr>"

section \<open>Runs of the engine\<close>

text \<open>
  The entry points of \<open>adb.c\<close>: the functions that the application calls and the USB
  event handler that the USB layer calls. A run executes a list of such calls in order;
  it has no result when a poll step does not return.
\<close>

datatype api_call =
  Call_init
  | Call_setEventHandler handler_ptr
  | Call_addConnection string bool handler_ptr
  | Call_poll
  | Call_write nat "uint8_t list"
  | Call_writeString nat string
  | Call_usbEvent usb_device_ptr usb_eventType

definition adb_call ::
  "'w platform \<Rightarrow> api_call \<Rightarrow> ('c::len, 'w) adb_state \<Rightarrow> ('c, 'w) adb_state option" where
  "adb_call P c s =
     (case c of
        Call_init \<Rightarrow> Some (adb_init P s)
      | Call_setEventHandler handler \<Rightarrow> Some (adb_setEventHandler handler s)
      | Call_addConnection str rc handler \<Rightarrow> Some (snd (adb_addConnection P str rc handler s))
      | Call_poll \<Rightarrow> adb_poll P s
      | Call_write i data \<Rightarrow> Some (snd (adb_write P i data s))
      | Call_writeString i str \<Rightarrow> Some (snd (adb_writeString P i str s))
      | Call_usbEvent device event \<Rightarrow> Some (adb_usbEventHandler P device event s))"

fun run ::
  "'w platform \<Rightarrow> api_call list \<Rightarrow> ('c::len, 'w) adb_state \<Rightarrow> ('c, 'w) adb_state option"
  where
  "run P [] s = Some s"
| "run P (c # cs) s = (case adb_call P c s of None \<Rightarrow> None | Some s' \<Rightarrow> run P cs s')"

text \<open>
  Modelled from the spec: the numbering of the status enumeration is in \<open>adb.h\<close>. The
  start state takes \<open>ADB_UNUSED\<close> to be the zero value, as the life cycle of the spec
  has every slot begin unused.
\<close>

definition adb_start :: "'w platform \<Rightarrow> 'w \<Rightarrow> ('c::len, 'w) adb_state" where
  "adb_start P w =
     \<lparr>adbDevice = None,
      connections = replicate (ADB_MAX_CONNECTIONS P)
        \<lparr>connectionString = [], localID = 0, remoteID = 0, lastConnectionAttempt = 0,
         dataSize = 0, dataRead = 0, status = ADB_UNUSED, reconnect = False,
         connection_eventHandler = None\<rparr>,
      connected = False, eventHandler = None, world = w, trace = []\<rparr>"

text \<open>
  Two relations on connection tables for the proofs: the invariant that every slot in
  use carries its index plus one as \<open>localID\<close>, and the steps that keep every
  \<open>localID\<close> and bring no unused slot into use.
\<close>

definition pool_inv :: "nat \<Rightarrow> ('c::len) adb_connection list \<Rightarrow> bool" where
  "pool_inv n cs =
     (length cs = n
      \<and> (\<forall>i<n. status (cs ! i) \<noteq> ADB_UNUSED \<longrightarrow> localID (cs ! i) = of_nat (i + 1)))"

definition pool_step ::
  "('c::len) adb_connection list \<Rightarrow> 'c adb_connection list \<Rightarrow> bool" where
  "pool_step cs cs' =
     (length cs' = length cs
      \<and> (\<forall>i<length cs. localID (cs' ! i) = localID (cs ! i)
            \<and> (status (cs' ! i) \<noteq> ADB_UNUSED \<longrightarrow> status (cs ! i) \<noteq> ADB_UNUSED)))"

section \<open>Example platforms\<close>

text \<open>
  A platform whose world is the clock value, whose reads answer by a given function of
  the requested length, and whose writes all return a given result.
\<close>

definition scripted_platform ::
  "nat \<Rightarrow> uint32_t \<Rightarrow> (nat \<Rightarrow> int \<times> uint8_t list) \<Rightarrow> int \<Rightarrow> uint32_t platform"
  where
  "scripted_platform n retry rd wr =
     \<lparr>A_CNXN = 0x4e584e43, A_OPEN = 0x4e45504f, A_OKAY = 0x59414b4f, A_CLSE = 0x45534c43,
      A_WRTE = 0x45545257, ADB_USB_PACKETSIZE = 64, ADB_CONNECTSTRING_LENGTH = 64,
      ADB_MAX_CONNECTIONS = n, ADB_CONNECTION_RETRY_TIME = retry,
      usb_bulkRead = (\<lambda>device len poll w. (rd len, w)),
      usb_bulkWrite = (\<lambda>device data w. (wr, w)),
      usb_poll = (\<lambda>w. ([], w)),
      usb_enumerate = (\<lambda>device w. (True, w)),
      usb_init = (\<lambda>w. w),
      avr_millis = (\<lambda>w. (w, w)),
      avr_delay = (\<lambda>ms w. w)\<rparr>"

definition unused_connection :: "('c::len) adb_connection" where
  "unused_connection =
     \<lparr>connectionString = [], localID = 0, remoteID = 0, lastConnectionAttempt = 0,
      dataSize = 0, dataRead = 0, status = ADB_UNUSED, reconnect = False,
      connection_eventHandler = None\<rparr>"

definition example_state :: "(16 adb_connection) list \<Rightarrow> (16, uint32_t) adb_state" where
  "example_state cs =
     \<lparr>adbDevice = Some 1, connections = cs, connected = True, eventHandler = None,
      world = 0, trace = []\<rparr>"

text \<open>
  A platform whose reads return exactly the count requested, a state with one open
  connection, and a \<open>WRTE\<close> frame that declares 130 bytes.
\<close>

definition exact_platform :: "uint32_t platform" where
  "exact_platform = scripted_platform 1 1000 (\<lambda>len. (int len, replicate 64 0)) 0"

definition open_state :: "(16, uint32_t) adb_state" where
  "open_state = example_state [unused_connection\<lparr>localID := 1, remoteID := 7, status := ADB_OPEN\<rparr>]"

definition write_130 :: adb_message where
  "write_130 = \<lparr>command = 0x45545257, arg0 = 7, arg1 = 1, data_length = 130,
                 data_check = 0, magic = NOT 0x45545257\<rparr>"

text \<open>
  Platforms whose reads always return 0, and always return the error value \<open>-1\<close>, and a
  \<open>WRTE\<close> frame that declares \<open>2^32 - 1\<close> bytes.
\<close>

definition zero_platform :: "uint32_t platform" where
  "zero_platform = scripted_platform 1 1000 (\<lambda>len. (0, replicate 64 0)) 0"

definition failing_platform :: "uint32_t platform" where
  "failing_platform = scripted_platform 1 1000 (\<lambda>len. (- 1, replicate 64 0)) 0"

definition write_max :: adb_message where
  "write_max = \<lparr>command = 0x45545257, arg0 = 7, arg1 = 1, data_length = 0xffffffff,
                 data_check = 0, magic = NOT 0x45545257\<rparr>"

text \<open>
  A loopback platform: the world is the queue of packets written and not yet read; a
  write appends its bytes as one packet and a read takes the oldest packet.
\<close>

definition loopback_platform :: "(uint8_t list list) platform" where
  "loopback_platform =
     \<lparr>A_CNXN = 0x4e584e43, A_OPEN = 0x4e45504f, A_OKAY = 0x59414b4f, A_CLSE = 0x45534c43,
      A_WRTE = 0x45545257, ADB_USB_PACKETSIZE = 64, ADB_CONNECTSTRING_LENGTH = 64,
      ADB_MAX_CONNECTIONS = 1, ADB_CONNECTION_RETRY_TIME = 1000,
      usb_bulkRead = (\<lambda>device len poll w.
         case w of [] \<Rightarrow> ((- 1, []), []) | p # ps \<Rightarrow> ((int (length p), p), ps)),
      usb_bulkWrite = (\<lambda>device data w. (0, w @ [data])),
      usb_poll = (\<lambda>w. ([], w)),
      usb_enumerate = (\<lambda>device w. (True, w)),
      usb_init = (\<lambda>w. w),
      avr_millis = (\<lambda>w. (0, w)),
      avr_delay = (\<lambda>ms w. w)\<rparr>"

definition loopback_state :: "(16, uint8_t list list) adb_state" where
  "loopback_state =
     \<lparr>adbDevice = Some 1, connections = [unused_connection], connected = True,
      eventHandler = None, world = [], trace = []\<rparr>"

text \<open>
  A state with three slots: an open persistent connection, an open non-persistent one
  and a closed persistent one. A state whose only connection is being opened.
\<close>

definition three_connections :: "(16, uint32_t) adb_state" where
  "three_connections =
     example_state
       [unused_connection\<lparr>localID := 1, status := ADB_OPEN, reconnect := True\<rparr>,
        unused_connection\<lparr>localID := 2, status := ADB_OPEN, reconnect := False\<rparr>,
        unused_connection\<lparr>localID := 3, status := ADB_CLOSED, reconnect := True\<rparr>]"

definition opening_state :: "(16, uint32_t) adb_state" where
  "opening_state = example_state [unused_connection\<lparr>localID := 1, status := ADB_OPENING\<rparr>]"

text \<open>
  A run on one slot: a non-persistent connection is added, a poll step sends its
  \<open>OPEN\<close>, and the device is unplugged, which returns the slot to \<open>ADB_UNUSED\<close>.
\<close>

definition one_slot_platform :: "uint32_t platform" where
  "one_slot_platform = scripted_platform 1 1000 (\<lambda>len. (- 1, [])) 0"

definition one_slot_start :: "(16, uint32_t) adb_state" where
  "one_slot_start = (adb_start one_slot_platform 5000)\<lparr>adbDevice := Some 1, connected := True\<rparr>"

definition add_open_unplug :: "api_call list" where
  "add_open_unplug =
     [Call_addConnection ''tcp:1'' False None, Call_poll, Call_usbEvent (Some 1) USB_DISCONNECT]"

section \<open>Codec lemmas\<close>

lemma le_word32_word32_bytes: "le_word32 (word32_bytes w) = w"
  unfolding word32_bytes_def
  apply simp
  apply (rule bit_word_eqI)
  apply (auto simp add: bit_simps)
  subgoal for n by (cases "n < 24") simp_all
  done

lemma length_word32_bytes: "length (word32_bytes w) = 4"
  by (simp add: word32_bytes_def)

lemma message_of_bytes_message_bytes: "message_of_bytes (message_bytes m @ rest) = m"
  by (simp add: message_of_bytes_def message_bytes_def length_word32_bytes
      le_word32_word32_bytes)

lemma length_message_bytes: "length (message_bytes m) = 24"
  by (simp add: message_bytes_def length_word32_bytes)

lemma xor_ffffffff: "(x :: uint32_t) XOR 0xffffffff = NOT x"
proof -
  have "(0xffffffff :: uint32_t) = - 1" by simp
  then show ?thesis by (simp only: bit.xor_one_right)
qed

section \<open>What each function leaves unchanged\<close>

lemma bulkWrite_frame:
  "connections (snd (bulkWrite P d data s)) = connections s"
  "adbDevice (snd (bulkWrite P d data s)) = adbDevice s"
  "connected (snd (bulkWrite P d data s)) = connected s"
  "eventHandler (snd (bulkWrite P d data s)) = eventHandler s"
  "trace (snd (bulkWrite P d data s)) = trace s @ [BulkWrite d data]"
  by (simp_all add: bulkWrite_def split: prod.splits)

lemma bulkRead_frame:
  "connections (snd (bulkRead P d len poll s)) = connections s"
  "adbDevice (snd (bulkRead P d len poll s)) = adbDevice s"
  "connected (snd (bulkRead P d len poll s)) = connected s"
  "eventHandler (snd (bulkRead P d len poll s)) = eventHandler s"
  "trace (snd (bulkRead P d len poll s)) = trace s"
  by (simp_all add: bulkRead_def split: prod.splits)

lemma adb_writeMessage_frame:
  "connections (snd (adb_writeMessage P d cmd a0 a1 data s)) = connections s"
  "adbDevice (snd (adb_writeMessage P d cmd a0 a1 data s)) = adbDevice s"
  "connected (snd (adb_writeMessage P d cmd a0 a1 data s)) = connected s"
  "eventHandler (snd (adb_writeMessage P d cmd a0 a1 data s)) = eventHandler s"
  by (auto simp add: adb_writeMessage_def Let_def bulkWrite_def split: prod.splits)

lemma adb_writeEmptyMessage_frame:
  "connections (snd (adb_writeEmptyMessage P d cmd a0 a1 s)) = connections s"
  "adbDevice (snd (adb_writeEmptyMessage P d cmd a0 a1 s)) = adbDevice s"
  "connected (snd (adb_writeEmptyMessage P d cmd a0 a1 s)) = connected s"
  "eventHandler (snd (adb_writeEmptyMessage P d cmd a0 a1 s)) = eventHandler s"
  by (simp_all add: adb_writeEmptyMessage_def bulkWrite_frame)

lemma adb_writeStringMessage_frame:
  "connections (snd (adb_writeStringMessage P d cmd a0 a1 str s)) = connections s"
  "adbDevice (snd (adb_writeStringMessage P d cmd a0 a1 str s)) = adbDevice s"
  "connected (snd (adb_writeStringMessage P d cmd a0 a1 str s)) = connected s"
  "eventHandler (snd (adb_writeStringMessage P d cmd a0 a1 str s)) = eventHandler s"
  by (simp_all add: adb_writeStringMessage_def adb_writeMessage_frame)

lemma adb_fireEvent_frame:
  "connections (adb_fireEvent c ty len data s) = connections s"
  "adbDevice (adb_fireEvent c ty len data s) = adbDevice s"
  "connected (adb_fireEvent c ty len data s) = connected s"
  "eventHandler (adb_fireEvent c ty len data s) = eventHandler s"
  "world (adb_fireEvent c ty len data s) = world s"
  by (simp_all add: adb_fireEvent_def)

lemma update_connection_frame:
  "connections (update_connection i f s) = (connections s)[i := f (connections s ! i)]"
  "adbDevice (update_connection i f s) = adbDevice s"
  "connected (update_connection i f s) = connected s"
  "eventHandler (update_connection i f s) = eventHandler s"
  "world (update_connection i f s) = world s"
  "trace (update_connection i f s) = trace s"
  by (simp_all add: update_connection_def)

lemma adb_handleConnect_connections:
  "connections (adb_handleConnect P message s) = connections s"
  by (simp add: adb_handleConnect_def Let_def case_prod_unfold adb_fireEvent_frame
      bulkRead_frame)

lemma adb_pollMessage_connections:
  "connections (snd (adb_pollMessage P poll s)) = connections s"
  by (simp add: adb_pollMessage_def Let_def case_prod_unfold bulkRead_frame)

section \<open>Headers written and read\<close>

lemma data_sum_acc: "data_sum data acc = acc + of_nat (sum_list (map unat data))"
  by (induction data arbitrary: acc) (simp_all add: add.assoc)

lemma data_sum_eq: "data_sum data 0 = of_nat (sum_list (map unat data))"
  by (simp add: data_sum_acc)

lemma adb_writeMessage_trace:
  "\<exists>rest. trace (snd (adb_writeMessage P d cmd a0 a1 data s))
     = trace s @ BulkWrite d (message_bytes
          \<lparr>command = cmd, arg0 = a0, arg1 = a1, data_length = of_nat (length data),
           data_check = data_sum data 0, magic = NOT cmd\<rparr>) # rest"
  by (auto simp add: adb_writeMessage_def Let_def bulkWrite_def xor_ffffffff split: prod.splits)

lemma adb_writeStringMessage_trace:
  "\<exists>rest. trace (snd (adb_writeStringMessage P d cmd a0 a1 str s))
     = trace s @ BulkWrite d (message_bytes
          \<lparr>command = cmd, arg0 = a0, arg1 = a1, data_length = of_nat (length str + 1),
           data_check = data_sum (string_bytes str) 0, magic = NOT cmd\<rparr>) # rest"
  using adb_writeMessage_trace [of P d cmd a0 a1 "string_bytes str" s]
  by (simp add: adb_writeStringMessage_def string_bytes_def)

lemma adb_writeEmptyMessage_trace:
  "trace (snd (adb_writeEmptyMessage P d cmd a0 a1 s))
     = trace s @ [BulkWrite d (message_bytes
          \<lparr>command = cmd, arg0 = a0, arg1 = a1, data_length = 0, data_check = 0,
           magic = NOT cmd\<rparr>)]"
  by (simp add: adb_writeEmptyMessage_def bulkWrite_frame xor_ffffffff)

lemma adb_pollMessage_valid:
  fixes t :: "('c::len, 'w) adb_state"
  assumes "usb_bulkRead Q (adbDevice t) (ADB_USB_PACKETSIZE Q) poll (world t)
             = ((24, message_bytes m @ junk), w)"
    and "magic m = NOT (command m)"
  shows "fst (adb_pollMessage Q poll t) = Some m"
  using assms
  by (simp add: adb_pollMessage_def bulkRead_def Let_def message_of_bytes_message_bytes
      xor_ffffffff)

section \<open>The loop of \<open>adb_openClosedConnections\<close>\<close>

lemma adb_openClosedConnections_iter_other:
  "j \<noteq> i \<Longrightarrow> connections (adb_openClosedConnections_iter P j s) ! i = connections s ! i"
  by (simp add: adb_openClosedConnections_iter_def Let_def case_prod_unfold
      update_connection_frame adb_writeStringMessage_frame)

lemma adb_openClosedConnections_iter_length:
  "length (connections (adb_openClosedConnections_iter P j s)) = length (connections s)"
  by (simp add: adb_openClosedConnections_iter_def Let_def case_prod_unfold
      update_connection_frame adb_writeStringMessage_frame)

lemma adb_openClosedConnections_iter_adbDevice:
  "adbDevice (adb_openClosedConnections_iter P j s) = adbDevice s"
  by (simp add: adb_openClosedConnections_iter_def Let_def case_prod_unfold
      update_connection_frame adb_writeStringMessage_frame)

lemma fold_adb_openClosedConnections_iter_other:
  "i \<notin> set js \<Longrightarrow>
   connections (fold (adb_openClosedConnections_iter P) js s) ! i = connections s ! i"
  by (induction js arbitrary: s) (simp_all add: adb_openClosedConnections_iter_other)

lemma fold_adb_openClosedConnections_iter_length:
  "length (connections (fold (adb_openClosedConnections_iter P) js s)) = length (connections s)"
  by (induction js arbitrary: s) (simp_all add: adb_openClosedConnections_iter_length)

lemma fold_adb_openClosedConnections_iter_adbDevice:
  "adbDevice (fold (adb_openClosedConnections_iter P) js s) = adbDevice s"
  by (induction js arbitrary: s) (simp_all add: adb_openClosedConnections_iter_adbDevice)

lemma upt_split_at: "i < n \<Longrightarrow> [0..<n] = [0..<i] @ i # [Suc i..<n]"
  by (metis le_add1 le_add_same_cancel1 less_imp_add_positive upt_add_eq_append upt_conv_Cons)

section \<open>The reassembly loop of \<open>adb_handleWrite\<close>\<close>

lemma adb_handleWrite_loop_unfold:
  "0 < bytesLeft \<Longrightarrow>
   adb_handleWrite_loop P i bytesLeft s
     = adb_handleWrite_loop P i (fst (adb_handleWrite_body P i bytesLeft s))
         (snd (adb_handleWrite_body P i bytesLeft s))"
  by (subst adb_handleWrite_loop.simps) (simp split: prod.splits)

lemma adb_handleWrite_loop_done: "adb_handleWrite_loop P i 0 s = Some s"
  by (subst adb_handleWrite_loop.simps) simp

lemma adb_handleWrite_body_frame:
  "adbDevice (snd (adb_handleWrite_body P i bytesLeft s)) = adbDevice s"
  "connected (snd (adb_handleWrite_body P i bytesLeft s)) = connected s"
  "eventHandler (snd (adb_handleWrite_body P i bytesLeft s)) = eventHandler s"
  "length (connections (snd (adb_handleWrite_body P i bytesLeft s))) = length (connections s)"
  by (simp_all add: adb_handleWrite_body_def Let_def case_prod_unfold adb_fireEvent_frame
      update_connection_frame bulkRead_frame)

lemma adb_handleWrite_body_trace:
  "\<exists>b hs. trace (snd (adb_handleWrite_body P i bytesLeft s))
     = trace s @
       [Event (Some i) ADB_CONNECTION_RECEIVE
          (of_nat (if unat bytesLeft < ADB_USB_PACKETSIZE P then unat bytesLeft
                   else ADB_USB_PACKETSIZE P)) b hs]"
  by (simp add: adb_handleWrite_body_def Let_def case_prod_unfold adb_fireEvent_def
      update_connection_def bulkRead_def)

lemma adb_handleWrite_body_fst:
  "fst (adb_handleWrite_body P i bytesLeft s)
     = bytesLeft - of_int (fst (fst (usb_bulkRead P (adbDevice s)
         (if unat bytesLeft < ADB_USB_PACKETSIZE P then unat bytesLeft
          else ADB_USB_PACKETSIZE P) False (world s))))"
  by (simp add: adb_handleWrite_body_def Let_def case_prod_unfold bulkRead_def)

lemma unat_sub_of_int:
  fixes b :: uint32_t
  assumes "0 < r" and "r \<le> int (unat b)"
  shows "unat (b - of_int r) = unat b - nat r"
proof -
  have n: "nat r \<le> unat b" using assms(2) by arith
  have u: "unat (of_nat (nat r) :: uint32_t) = nat r" by (rule le_unat_uoi [OF n])
  have r: "(of_int r :: uint32_t) = of_nat (nat r)" using assms(1) by simp
  have "(of_nat (nat r) :: uint32_t) \<le> b" using n u by (simp add: word_le_nat_alt)
  then show ?thesis by (simp add: r unat_sub u)
qed

lemma adb_handleWrite_loop_terminates:
  fixes s :: "('c::len, 'w) adb_state"
  assumes "0 < ADB_USB_PACKETSIZE P"
    and "\<forall>device len poll w. 0 < len \<longrightarrow>
           0 < fst (fst (usb_bulkRead P device len poll w))
         \<and> fst (fst (usb_bulkRead P device len poll w)) \<le> int len"
  shows "\<exists>s'. adb_handleWrite_loop P i bytesLeft s = Some s'"
proof (induction "unat bytesLeft" arbitrary: bytesLeft s rule: less_induct)
  case less
  show ?case
  proof (cases "bytesLeft = 0")
    case True
    then show ?thesis by (simp add: adb_handleWrite_loop_done)
  next
    case False
    define len where "len = (if unat bytesLeft < ADB_USB_PACKETSIZE P then unat bytesLeft
          else ADB_USB_PACKETSIZE P)"
    define r where "r = fst (fst (usb_bulkRead P (adbDevice s) len False (world s)))"
    from False have pos: "0 < bytesLeft" by (simp add: word_greater_zero_iff)
    then have "0 < unat bytesLeft" by (simp add: word_less_nat_alt)
    with assms(1) have l: "0 < len" "len \<le> unat bytesLeft" by (simp_all add: len_def)
    from assms(2) l(1) have rr: "0 < r" "r \<le> int len" by (simp_all add: r_def)
    have f: "fst (adb_handleWrite_body P i bytesLeft s) = bytesLeft - of_int r"
      by (simp add: adb_handleWrite_body_fst len_def r_def)
    have "unat (bytesLeft - of_int r) = unat bytesLeft - nat r"
    proof (rule unat_sub_of_int [OF rr(1)])
      from rr(2) l(2) show "r \<le> int (unat bytesLeft)" by arith
    qed
    with rr(1) \<open>0 < unat bytesLeft\<close> have "unat (bytesLeft - of_int r) < unat bytesLeft"
      by simp
    from less [OF this] obtain s' where
      "adb_handleWrite_loop P i (bytesLeft - of_int r)
         (snd (adb_handleWrite_body P i bytesLeft s)) = Some s'"
      by blast
    with adb_handleWrite_loop_unfold [OF pos, of P i s] f show ?thesis by simp
  qed
qed

lemma adb_handleWrite_loop_zero_reads:
  fixes s :: "('c::len, 'w) adb_state"
  assumes "\<forall>device len poll w. fst (fst (usb_bulkRead P device len poll w)) = 0"
    and "adb_handleWrite_loop P i bytesLeft s = Some s'"
  shows "bytesLeft = 0"
proof -
  have "(\<forall>device len poll w. fst (fst (usb_bulkRead P device len poll w)) = 0)
          \<longrightarrow> bytesLeft = 0"
  proof (rule adb_handleWrite_loop.raw_induct
      [where Pa = "\<lambda>x y. (\<forall>device len poll w.
                 fst (fst (usb_bulkRead (fst (fst (fst x))) device len poll w)) = 0)
               \<longrightarrow> snd (fst x) = 0", simplified, OF _ assms(2)])
    fix f :: "'w platform \<Rightarrow> nat \<Rightarrow> uint32_t \<Rightarrow> ('c, 'w) adb_state \<Rightarrow> ('c, 'w) adb_state option"
    fix Q j b t y
    assume ih: "\<And>Q j b t y. f Q j b t = Some y \<Longrightarrow>
                 (\<forall>device len poll w. fst (fst (usb_bulkRead Q device len poll w)) = 0)
                 \<longrightarrow> b = 0"
    assume step: "(if 0 < b
                   then case adb_handleWrite_body Q j b t of (b', t') \<Rightarrow> f Q j b' t'
                   else Some t) = Some y"
    show "(\<forall>device len poll w. fst (fst (usb_bulkRead Q device len poll w)) = 0) \<longrightarrow> b = 0"
    proof
      assume z: "\<forall>device len poll w. fst (fst (usb_bulkRead Q device len poll w)) = 0"
      show "b = 0"
      proof (cases "0 < b")
        case True
        have "fst (adb_handleWrite_body Q j b t) = b"
          by (simp add: adb_handleWrite_body_fst z)
        with step True have "f Q j b (snd (adb_handleWrite_body Q j b t)) = Some y"
          by (simp add: case_prod_unfold)
        from ih [OF this] z show ?thesis by simp
      next
        case False
        then show ?thesis by (simp add: word_greater_zero_iff)
      qed
    qed
  qed
  with assms(1) show ?thesis by simp
qed

section \<open>The loop of \<open>adb_closeAll\<close>\<close>

lemma adb_handleClose_frame:
  "adbDevice (adb_handleClose i s) = adbDevice s"
  "connected (adb_handleClose i s) = connected s"
  "eventHandler (adb_handleClose i s) = eventHandler s"
  "world (adb_handleClose i s) = world s"
  "connections (adb_handleClose i s)
     = (connections s)[i := (connections s ! i)
         \<lparr>status := (if reconnect (connections s ! i) then ADB_CLOSED else ADB_UNUSED)\<rparr>]"
  "trace (adb_handleClose i s)
     = trace s @
       [Event (Some i)
          (if status (connections s ! i) = ADB_OPENING then ADB_CONNECTION_FAILED
           else ADB_CONNECTION_CLOSE) 0 [] (event_handlers (Some i) s)]"
  by (simp_all add: adb_handleClose_def Let_def update_connection_def adb_fireEvent_def)

lemma adb_closeAll_iter_frame:
  "adbDevice (adb_closeAll_iter j s) = adbDevice s"
  "connected (adb_closeAll_iter j s) = connected s"
  "eventHandler (adb_closeAll_iter j s) = eventHandler s"
  "world (adb_closeAll_iter j s) = world s"
  "length (connections (adb_closeAll_iter j s)) = length (connections s)"
  by (simp_all add: adb_closeAll_iter_def adb_handleClose_frame)

lemma adb_closeAll_iter_other:
  "i \<noteq> j \<Longrightarrow> connections (adb_closeAll_iter j s) ! i = connections s ! i"
  by (simp add: adb_closeAll_iter_def adb_handleClose_frame)

lemma adb_closeAll_iter_same:
  "j < length (connections s) \<Longrightarrow>
   connections (adb_closeAll_iter j s) ! j
     = (if status (connections s ! j) \<noteq> ADB_UNUSED \<and> status (connections s ! j) \<noteq> ADB_CLOSED
        then (connections s ! j)
               \<lparr>status := (if reconnect (connections s ! j) then ADB_CLOSED else ADB_UNUSED)\<rparr>
        else connections s ! j)"
  by (simp add: adb_closeAll_iter_def adb_handleClose_frame)

lemma adb_closeAll_iter_trace:
  "trace (adb_closeAll_iter j s)
     = trace s @
       (if status (connections s ! j) \<noteq> ADB_UNUSED \<and> status (connections s ! j) \<noteq> ADB_CLOSED
        then [Event (Some j)
                (if status (connections s ! j) = ADB_OPENING then ADB_CONNECTION_FAILED
                 else ADB_CONNECTION_CLOSE) 0 [] (event_handlers (Some j) s)]
        else [])"
  by (simp add: adb_closeAll_iter_def adb_handleClose_frame)

lemma event_handlers_cong:
  "eventHandler s' = eventHandler s \<Longrightarrow> connections s' ! i = connections s ! i \<Longrightarrow>
   event_handlers (Some i) s' = event_handlers (Some i) s"
  by (simp add: event_handlers_def)

lemma fold_adb_closeAll_iter_frame:
  "adbDevice (fold adb_closeAll_iter js s) = adbDevice s"
  "connected (fold adb_closeAll_iter js s) = connected s"
  "eventHandler (fold adb_closeAll_iter js s) = eventHandler s"
  "world (fold adb_closeAll_iter js s) = world s"
  "length (connections (fold adb_closeAll_iter js s)) = length (connections s)"
  by (induction js arbitrary: s; simp add: adb_closeAll_iter_frame)+

lemma fold_adb_closeAll_iter_other:
  "i \<notin> set js \<Longrightarrow> connections (fold adb_closeAll_iter js s) ! i = connections s ! i"
  by (induction js arbitrary: s) (auto simp add: adb_closeAll_iter_other)

lemma fold_adb_closeAll_iter_same:
  "distinct js \<Longrightarrow> i \<in> set js \<Longrightarrow> i < length (connections s) \<Longrightarrow>
   connections (fold adb_closeAll_iter js s) ! i
     = (if status (connections s ! i) \<noteq> ADB_UNUSED \<and> status (connections s ! i) \<noteq> ADB_CLOSED
        then (connections s ! i)
               \<lparr>status := (if reconnect (connections s ! i) then ADB_CLOSED else ADB_UNUSED)\<rparr>
        else connections s ! i)"
proof (induction js arbitrary: s)
  case Nil
  then show ?case by simp
next
  case (Cons j js)
  show ?case
  proof (cases "i = j")
    case True
    with Cons.prems have "i \<notin> set js" by simp
    then show ?thesis
      using Cons.prems(3) True
      by (simp add: fold_adb_closeAll_iter_other adb_closeAll_iter_same)
  next
    case False
    with Cons.prems have "i \<in> set js" "distinct js" by simp_all
    from Cons.IH [OF this(2,1), of "adb_closeAll_iter j s"] Cons.prems(3) False
    show ?thesis by (simp add: adb_closeAll_iter_frame adb_closeAll_iter_other)
  qed
qed

lemma fold_adb_closeAll_iter_trace:
  "distinct js \<Longrightarrow>
   trace (fold adb_closeAll_iter js s)
     = trace s @
       map (\<lambda>i. Event (Some i)
                  (if status (connections s ! i) = ADB_OPENING then ADB_CONNECTION_FAILED
                   else ADB_CONNECTION_CLOSE) 0 [] (event_handlers (Some i) s))
         (filter (\<lambda>i. status (connections s ! i) \<noteq> ADB_UNUSED
                      \<and> status (connections s ! i) \<noteq> ADB_CLOSED) js)"
proof (induction js arbitrary: s)
  case Nil
  then show ?case by simp
next
  case (Cons j js)
  let ?s1 = "adb_closeAll_iter j s"
  from Cons.prems have d: "distinct js" and nj: "j \<notin> set js" by simp_all
  have same: "connections ?s1 ! i = connections s ! i" if "i \<in> set js" for i
  proof (rule adb_closeAll_iter_other)
    from that nj show "i \<noteq> j" by blast
  qed
  have hs: "event_handlers (Some i) ?s1 = event_handlers (Some i) s" if "i \<in> set js" for i
    by (rule event_handlers_cong) (simp_all add: adb_closeAll_iter_frame same that)
  have f: "filter (\<lambda>i. status (connections ?s1 ! i) \<noteq> ADB_UNUSED
                      \<and> status (connections ?s1 ! i) \<noteq> ADB_CLOSED) js
         = filter (\<lambda>i. status (connections s ! i) \<noteq> ADB_UNUSED
                      \<and> status (connections s ! i) \<noteq> ADB_CLOSED) js"
    by (rule filter_cong) (simp_all add: same)
  have m: "map (\<lambda>i. Event (Some i)
                  (if status (connections ?s1 ! i) = ADB_OPENING then ADB_CONNECTION_FAILED
                   else ADB_CONNECTION_CLOSE) 0 [] (event_handlers (Some i) ?s1)) xs
         = map (\<lambda>i. Event (Some i)
                  (if status (connections s ! i) = ADB_OPENING then ADB_CONNECTION_FAILED
                   else ADB_CONNECTION_CLOSE) 0 [] (event_handlers (Some i) s)) xs"
    if "set xs \<subseteq> set js" for xs
  proof (rule map_cong)
    fix i assume "i \<in> set xs"
    with that have i: "i \<in> set js" by blast
    show "Event (Some i)
            (if status (connections ?s1 ! i) = ADB_OPENING then ADB_CONNECTION_FAILED
             else ADB_CONNECTION_CLOSE) 0 [] (event_handlers (Some i) ?s1)
        = Event (Some i)
            (if status (connections s ! i) = ADB_OPENING then ADB_CONNECTION_FAILED
             else ADB_CONNECTION_CLOSE) 0 [] (event_handlers (Some i) s)"
      by (simp add: same [OF i] hs [OF i])
  qed simp
  have "trace (fold adb_closeAll_iter (j # js) s) = trace (fold adb_closeAll_iter js ?s1)"
    by simp
  also note Cons.IH [OF d, of ?s1]
  also note f
  also have "map (\<lambda>i. Event (Some i)
                  (if status (connections ?s1 ! i) = ADB_OPENING then ADB_CONNECTION_FAILED
                   else ADB_CONNECTION_CLOSE) 0 [] (event_handlers (Some i) ?s1))
         (filter (\<lambda>i. status (connections s ! i) \<noteq> ADB_UNUSED
                      \<and> status (connections s ! i) \<noteq> ADB_CLOSED) js)
       = map (\<lambda>i. Event (Some i)
                  (if status (connections s ! i) = ADB_OPENING then ADB_CONNECTION_FAILED
                   else ADB_CONNECTION_CLOSE) 0 [] (event_handlers (Some i) s))
         (filter (\<lambda>i. status (connections s ! i) \<noteq> ADB_UNUSED
                      \<and> status (connections s ! i) \<noteq> ADB_CLOSED) js)"
    by (rule m) auto
  finally show ?case by (simp add: adb_closeAll_iter_trace)
qed

section \<open>The invariant of the connection table\<close>

lemma pool_step_refl: "pool_step cs cs"
  by (simp add: pool_step_def)

lemma pool_step_eq: "cs' = cs \<Longrightarrow> pool_step cs cs'"
  by (simp add: pool_step_def)

lemma pool_step_trans: "pool_step cs cs' \<Longrightarrow> pool_step cs' cs'' \<Longrightarrow> pool_step cs cs''"
  by (simp add: pool_step_def)

lemma pool_inv_step: "pool_inv n cs \<Longrightarrow> pool_step cs cs' \<Longrightarrow> pool_inv n cs'"
  by (auto simp add: pool_inv_def pool_step_def)

lemma pool_step_update:
  assumes "localID c = localID (cs ! i)"
    and "status c \<noteq> ADB_UNUSED \<longrightarrow> status (cs ! i) \<noteq> ADB_UNUSED"
  shows "pool_step cs (cs[i := c])"
proof -
  have "localID (cs[i := c] ! k) = localID (cs ! k)
        \<and> (status (cs[i := c] ! k) \<noteq> ADB_UNUSED \<longrightarrow> status (cs ! k) \<noteq> ADB_UNUSED)"
    if "k < length cs" for k
    using that assms by (cases "k = i") simp_all
  then show ?thesis by (simp add: pool_step_def)
qed

lemma pool_step_maps:
  assumes "map localID cs' = map localID cs" and "map status cs' = map status cs"
  shows "pool_step cs cs'"
proof -
  have l: "length cs' = length cs" using assms(1) by (rule map_eq_imp_length_eq)
  have "localID (cs' ! i) = localID (cs ! i) \<and> status (cs' ! i) = status (cs ! i)"
    if "i < length cs" for i
    using that l nth_map [of i cs' localID] nth_map [of i cs localID]
      nth_map [of i cs' status] nth_map [of i cs status] assms
    by simp
  with l show ?thesis by (simp add: pool_step_def)
qed

lemma map_update_same: "f y = f (xs ! i) \<Longrightarrow> map f (xs[i := y]) = map f xs"
  by (cases "i < length xs") (simp_all add: map_update list_update_same_conv list_update_beyond)

lemma adb_openClosedConnections_iter_pool:
  "pool_step (connections s) (connections (adb_openClosedConnections_iter P j s))"
  by (simp add: adb_openClosedConnections_iter_def Let_def case_prod_unfold
      update_connection_frame adb_writeStringMessage_frame pool_step_refl pool_step_update)

lemma adb_openClosedConnections_pool:
  "pool_step (connections s) (connections (adb_openClosedConnections P s))"
proof -
  have "pool_step (connections s) (connections (fold (adb_openClosedConnections_iter P) js s))"
    for js
  proof (induction js arbitrary: s)
    case Nil
    show ?case by (simp add: pool_step_refl)
  next
    case (Cons j js)
    from adb_openClosedConnections_iter_pool [of s P j]
      Cons.IH [of "adb_openClosedConnections_iter P j s"]
    show ?case by (simp add: pool_step_trans)
  qed
  then show ?thesis by (simp add: adb_openClosedConnections_def)
qed

lemma update_connection_pool:
  assumes "localID (f (connections s ! i)) = localID (connections s ! i)"
    and "status (f (connections s ! i)) \<noteq> ADB_UNUSED \<longrightarrow> status (connections s ! i) \<noteq> ADB_UNUSED"
  shows "pool_step (connections s) (connections (update_connection i f s))"
  using assms by (simp add: update_connection_frame pool_step_update)

lemma adb_handleOkay_pool:
  "pool_step (connections s) (connections (adb_handleOkay i message s))"
proof -
  define s1 where "s1 = (if status (connections s ! i) = ADB_OPENING
                then adb_fireEvent (Some i) ADB_CONNECTION_OPEN 0 []
                       (update_connection i
                          (\<lambda>c. c\<lparr>status := ADB_OPEN, remoteID := arg0 message\<rparr>) s)
                else s)"
  have a: "pool_step (connections s) (connections s1)"
    by (simp add: s1_def adb_fireEvent_frame pool_step_refl update_connection_pool)
  have b: "pool_step (connections s1) (connections (adb_handleOkay i message s))"
    unfolding adb_handleOkay_def Let_def s1_def [symmetric]
    by (simp add: pool_step_refl update_connection_pool)
  from a b show ?thesis by (rule pool_step_trans)
qed

lemma adb_handleClose_pool:
  "status (connections s ! i) \<noteq> ADB_UNUSED \<Longrightarrow>
   pool_step (connections s) (connections (adb_handleClose i s))"
  by (simp add: adb_handleClose_frame pool_step_update)

lemma adb_closeAll_iter_pool:
  "pool_step (connections s) (connections (adb_closeAll_iter j s))"
  by (simp add: adb_closeAll_iter_def adb_handleClose_pool pool_step_refl)

lemma adb_closeAll_pool:
  "pool_step (connections s) (connections (adb_closeAll P s))"
proof -
  have "pool_step (connections s) (connections (fold adb_closeAll_iter js s))" for js
  proof (induction js arbitrary: s)
    case Nil
    show ?case by (simp add: pool_step_refl)
  next
    case (Cons j js)
    from adb_closeAll_iter_pool [of s j] Cons.IH [of "adb_closeAll_iter j s"]
    show ?case by (simp add: pool_step_trans)
  qed
  then show ?thesis by (simp add: adb_closeAll_def)
qed

lemma adb_usbEventHandler_pool:
  "pool_step (connections s) (connections (adb_usbEventHandler P device event s))"
  by (cases event)
    (simp_all add: adb_usbEventHandler_def case_prod_unfold pool_step_refl adb_closeAll_pool)

lemma adb_write_pool:
  "pool_step (connections s) (connections (snd (adb_write P i data s)))"
  by (simp add: adb_write_def case_prod_unfold pool_step_refl adb_writeMessage_frame
      pool_step_update update_connection_frame)

lemma adb_writeString_pool:
  "pool_step (connections s) (connections (snd (adb_writeString P i str s)))"
  by (simp add: adb_writeString_def case_prod_unfold pool_step_refl
      adb_writeStringMessage_frame pool_step_update update_connection_frame)

lemma adb_handleWrite_body_maps:
  "map localID (connections (snd (adb_handleWrite_body P i bytesLeft s)))
     = map localID (connections s)"
  "map status (connections (snd (adb_handleWrite_body P i bytesLeft s)))
     = map status (connections s)"
  by (simp_all add: adb_handleWrite_body_def Let_def case_prod_unfold adb_fireEvent_frame
      update_connection_frame bulkRead_frame map_update_same)

lemma adb_handleWrite_loop_maps:
  fixes s :: "('c::len, 'w) adb_state"
  assumes "adb_handleWrite_loop P i bytesLeft s = Some s'"
  shows "map localID (connections s') = map localID (connections s)
       \<and> map status (connections s') = map status (connections s)"
proof (rule adb_handleWrite_loop.raw_induct
    [where Pa = "\<lambda>x y. map localID (connections y) = map localID (connections (snd x))
                      \<and> map status (connections y) = map status (connections (snd x))",
     simplified, OF _ assms])
  fix f :: "'w platform \<Rightarrow> nat \<Rightarrow> uint32_t \<Rightarrow> ('c, 'w) adb_state \<Rightarrow> ('c, 'w) adb_state option"
  fix Q j b t y
  assume ih: "\<And>Q j b t y. f Q j b t = Some y \<Longrightarrow>
                map localID (connections y) = map localID (connections t)
              \<and> map status (connections y) = map status (connections t)"
  assume step: "(if 0 < b
                 then case adb_handleWrite_body Q j b t of (b', t') \<Rightarrow> f Q j b' t'
                 else Some t) = Some y"
  show "map localID (connections y) = map localID (connections t)
      \<and> map status (connections y) = map status (connections t)"
  proof (cases "0 < b")
    case True
    with step have "f Q j (fst (adb_handleWrite_body Q j b t))
                      (snd (adb_handleWrite_body Q j b t)) = Some y"
      by (simp add: case_prod_unfold)
    from ih [OF this] show ?thesis by (simp add: adb_handleWrite_body_maps)
  next
    case False
    with step show ?thesis by simp
  qed
qed

lemma adb_handleWrite_pool:
  fixes s :: "('c::len, 'w) adb_state"
  assumes "adb_handleWrite P i message s = Some s'"
  shows "pool_step (connections s) (connections s')"
proof -
  define s1 where "s1 = update_connection i
                 (\<lambda>c. c\<lparr>status := ADB_RECEIVING, dataRead := 0,
                         dataSize := ucast (data_length message)\<rparr>) s"
  from assms obtain s2 where
    loop: "adb_handleWrite_loop P i (data_length message) s1 = Some s2"
    and s': "s' = update_connection i (\<lambda>c. c\<lparr>status := status (connections s ! i)\<rparr>)
               (snd (adb_writeEmptyMessage P (adbDevice s2) (A_OKAY P) (arg1 message)
                       (arg0 message) s2))"
    unfolding adb_handleWrite_def Let_def s1_def [symmetric]
    by (auto simp add: case_prod_unfold split: option.splits)
  from adb_handleWrite_loop_maps [OF loop]
  have m2: "map localID (connections s2) = map localID (connections s1)"
    "map status (connections s2) = map status (connections s1)" by simp_all
  have l1: "map localID (connections s1) = map localID (connections s)"
    by (simp add: s1_def update_connection_frame map_update_same)
  have st1: "map status (connections s1) = (map status (connections s))[i := ADB_RECEIVING]"
    by (simp add: s1_def update_connection_frame map_update)
  have cs': "connections s' = (connections s2)[i := (connections s2 ! i)
                \<lparr>status := status (connections s ! i)\<rparr>]"
    by (simp add: s' update_connection_frame adb_writeEmptyMessage_frame)
  have a: "map localID (connections s') = map localID (connections s)"
    by (simp add: cs' map_update_same m2 l1)
  have "map status (connections s')
          = (map status (connections s))[i := status (connections s ! i)]"
    by (simp add: cs' map_update m2 st1)
  also have "\<dots> = map status (connections s)"
    by (cases "i < length (connections s)") (simp_all add: list_update_same_conv list_update_beyond)
  finally have b: "map status (connections s') = map status (connections s)" .
  from a b show ?thesis by (rule pool_step_maps)
qed

lemma adb_poll_dispatch_pool:
  "adb_poll_dispatch P message i s = Some s' \<Longrightarrow> pool_step (connections s) (connections s')"
  by (auto simp add: adb_poll_dispatch_def pool_step_refl adb_handleOkay_pool
      adb_handleClose_pool adb_handleWrite_pool split: if_splits)

lemma adb_poll_loop_pool:
  "adb_poll_loop P message js s = Some s' \<Longrightarrow> pool_step (connections s) (connections s')"
proof (induction js arbitrary: s)
  case Nil
  then show ?case by (simp add: pool_step_refl)
next
  case (Cons j js)
  from Cons.prems obtain s1 where d: "adb_poll_dispatch P message j s = Some s1"
    and r: "adb_poll_loop P message js s1 = Some s'"
    by (auto split: option.splits)
  from adb_poll_dispatch_pool [OF d] Cons.IH [OF r] show ?case by (rule pool_step_trans)
qed

lemma fold_adb_usbEventHandler_pool:
  "pool_step (connections s)
     (connections (fold (\<lambda>(device, event). adb_usbEventHandler P device event) events s))"
proof (induction events arbitrary: s)
  case Nil
  show ?case by (simp add: pool_step_refl)
next
  case (Cons e events)
  from adb_usbEventHandler_pool [of s P "fst e" "snd e"]
    Cons.IH [of "adb_usbEventHandler P (fst e) (snd e) s"]
  show ?case by (simp add: case_prod_unfold pool_step_trans)
qed

lemma adb_poll_pool:
  fixes s :: "('c::len, 'w) adb_state"
  assumes "adb_poll P s = Some s'"
  shows "pool_step (connections s) (connections s')"
proof -
  define s1 where "s1 = fold (\<lambda>(device, event). adb_usbEventHandler P device event)
                          (fst (usb_poll P (world s))) (s\<lparr>world := snd (usb_poll P (world s))\<rparr>)"
  define s2 where "s2 = (if \<not> connected s1
                         then (snd (adb_writeStringMessage P (adbDevice s1) (A_CNXN P)
                                      0x01000000 4096 ''host::microbridge'' s1))
                              \<lparr>world := avr_delay P 500 (world (snd (adb_writeStringMessage P
                                 (adbDevice s1) (A_CNXN P) 0x01000000 4096
                                 ''host::microbridge'' s1)))\<rparr>
                         else s1)"
  define s3 where "s3 = (if connected s2 then adb_openClosedConnections P s2 else s2)"
  define r where "r = adb_pollMessage P True s3"
  have eq: "adb_poll P s =
      (if adbDevice s1 = None then Some s1
       else case fst r of
              None \<Rightarrow> Some (snd r)
            | Some message \<Rightarrow>
                adb_poll_loop P message [0..<ADB_MAX_CONNECTIONS P]
                  (if command message = A_CNXN P then adb_handleConnect P message (snd r)
                   else snd r))"
    unfolding adb_poll_def r_def s3_def s2_def s1_def
    by (simp add: Let_def case_prod_unfold split: option.split)
  have p1: "pool_step (connections s) (connections s1)"
    using fold_adb_usbEventHandler_pool [of "s\<lparr>world := snd (usb_poll P (world s))\<rparr>" P
        "fst (usb_poll P (world s))"]
    by (simp add: s1_def)
  have p2: "connections s2 = connections s1"
    by (simp add: s2_def adb_writeStringMessage_frame)
  have p3: "pool_step (connections s2) (connections s3)"
    by (simp add: s3_def adb_openClosedConnections_pool pool_step_refl)
  have p4: "connections (snd r) = connections s3"
    by (simp add: r_def adb_pollMessage_connections)
  from p1 p2 p3 p4 have p: "pool_step (connections s) (connections (snd r))"
    by (metis pool_step_trans)
  show ?thesis
  proof (cases "adbDevice s1 = None")
    case True
    with eq assms p1 show ?thesis by simp
  next
    case False
    show ?thesis
    proof (cases "fst r")
      case None
      with eq assms False p show ?thesis by simp
    next
      case (Some message)
      define s5 where "s5 = (if command message = A_CNXN P
                             then adb_handleConnect P message (snd r) else snd r)"
      have c5: "connections s5 = connections (snd r)"
        by (simp add: s5_def adb_handleConnect_connections)
      from eq assms False Some
      have "adb_poll_loop P message [0..<ADB_MAX_CONNECTIONS P] s5 = Some s'"
        by (simp add: s5_def)
      from adb_poll_loop_pool [OF this] p c5 show ?thesis
        by (metis pool_step_trans)
    qed
  qed
qed

lemma adb_addConnection_scan_pool_inv:
  fixes s :: "('c::len, 'w) adb_state"
  assumes "pool_inv (ADB_MAX_CONNECTIONS P) (connections s)"
  shows "pool_inv (ADB_MAX_CONNECTIONS P)
           (connections (snd (adb_addConnection_scan P str rc handler index s)))"
  using assms
proof (induction P str rc handler index s rule: adb_addConnection_scan.induct)
  case (1 P str rc handler index s)
  show ?case
  proof (cases "index < ADB_MAX_CONNECTIONS P")
    case False
    with "1.prems" show ?thesis by (subst adb_addConnection_scan.simps) simp
  next
    case True
    show ?thesis
    proof (cases "status (connections s ! index) = ADB_UNUSED")
      case False
      from "1.IH" [OF True False "1.prems"] True False show ?thesis
        by (subst adb_addConnection_scan.simps) simp
    next
      case unused: True
      have "pool_inv (ADB_MAX_CONNECTIONS P)
              ((connections s)[index := (connections s ! index)
                 \<lparr>connectionString := str, localID := of_nat (index + 1), status := ADB_CLOSED,
                  lastConnectionAttempt := 0, reconnect := rc,
                  connection_eventHandler := handler\<rparr>])"
        using "1.prems" True
        by (auto simp add: pool_inv_def nth_list_update)
      with True unused show ?thesis
        by (subst adb_addConnection_scan.simps) (simp add: update_connection_frame)
    qed
  qed
qed

lemma adb_addConnection_pool_inv:
  "pool_inv (ADB_MAX_CONNECTIONS P) (connections s) \<Longrightarrow>
   pool_inv (ADB_MAX_CONNECTIONS P) (connections (snd (adb_addConnection P str rc handler s)))"
  by (simp add: adb_addConnection_def adb_addConnection_scan_pool_inv)

lemma adb_addConnection_scan_first_unused:
  fixes s :: "('c::len, 'w) adb_state"
  assumes "index \<le> i" and "i < ADB_MAX_CONNECTIONS P" and "i < length (connections s)"
    and "status (connections s ! i) = ADB_UNUSED"
    and "\<forall>j. index \<le> j \<and> j < i \<longrightarrow> status (connections s ! j) \<noteq> ADB_UNUSED"
  shows "adb_addConnection_scan P str rc handler index s
           = (Some i,
              update_connection i
                (\<lambda>c. c\<lparr>connectionString := str, localID := of_nat (i + 1), status := ADB_CLOSED,
                        lastConnectionAttempt := 0, reconnect := rc,
                        connection_eventHandler := handler\<rparr>) s)"
  using assms
proof (induction "i - index" arbitrary: index)
  case 0
  then have "index = i" by simp
  with "0.prems" show ?case by (subst adb_addConnection_scan.simps) simp
next
  case (Suc d)
  then have lt: "index < i" by simp
  with Suc.prems have used: "status (connections s ! index) \<noteq> ADB_UNUSED" by simp
  from Suc.hyps(2) have d: "d = i - (index + 1)" by simp
  have "adb_addConnection_scan P str rc handler (index + 1) s
           = (Some i,
              update_connection i
                (\<lambda>c. c\<lparr>connectionString := str, localID := of_nat (i + 1), status := ADB_CLOSED,
                        lastConnectionAttempt := 0, reconnect := rc,
                        connection_eventHandler := handler\<rparr>) s)"
    using Suc.prems lt by (intro Suc.hyps(1) [OF d]) simp_all
  with lt used Suc.prems(2) show ?case
    by (subst adb_addConnection_scan.simps) simp
qed

lemma adb_call_pool_inv:
  fixes s :: "('c::len, 'w) adb_state"
  assumes "pool_inv (ADB_MAX_CONNECTIONS P) (connections s)" and "adb_call P c s = Some s'"
  shows "pool_inv (ADB_MAX_CONNECTIONS P) (connections s')"
proof (cases c)
  case Call_init
  with assms show ?thesis by (auto simp add: adb_call_def adb_init_def)
next
  case (Call_setEventHandler h)
  with assms show ?thesis by (auto simp add: adb_call_def adb_setEventHandler_def)
next
  case (Call_addConnection str rc h)
  with assms show ?thesis by (auto simp add: adb_call_def adb_addConnection_pool_inv)
next
  case Call_poll
  with assms have "adb_poll P s = Some s'" by (simp add: adb_call_def)
  from pool_inv_step [OF assms(1) adb_poll_pool [OF this]] show ?thesis .
next
  case (Call_write i data)
  with assms pool_inv_step [OF assms(1) adb_write_pool [of s P i data]]
  show ?thesis by (auto simp add: adb_call_def)
next
  case (Call_writeString i str)
  with assms pool_inv_step [OF assms(1) adb_writeString_pool [of s P i str]]
  show ?thesis by (auto simp add: adb_call_def)
next
  case (Call_usbEvent device event)
  with assms pool_inv_step [OF assms(1) adb_usbEventHandler_pool [of s P device event]]
  show ?thesis by (auto simp add: adb_call_def)
qed

lemma run_pool_inv:
  fixes s :: "('c::len, 'w) adb_state"
  shows "pool_inv (ADB_MAX_CONNECTIONS P) (connections s) \<Longrightarrow> run P calls s = Some s' \<Longrightarrow>
         pool_inv (ADB_MAX_CONNECTIONS P) (connections s')"
proof (induction calls arbitrary: s)
  case Nil
  then show ?case by simp
next
  case (Cons c calls)
  from Cons.prems(2) obtain s1 where c: "adb_call P c s = Some s1"
    and r: "run P calls s1 = Some s'"
    by (auto split: option.splits)
  from Cons.IH [OF adb_call_pool_inv [OF Cons.prems(1) c] r] show ?case .
qed

lemma pool_inv_all_unused:
  "length cs = n \<Longrightarrow> list_all (\<lambda>c. status c = ADB_UNUSED) cs \<Longrightarrow> pool_inv n cs"
  by (auto simp add: pool_inv_def list_all_length)

lemma local_id_inj:
  assumes "i < 2 ^ 15" and "j < 2 ^ 15"
    and "(of_nat (i + 1) :: uint32_t) = of_nat (j + 1)"
  shows "i = j"
proof -
  have "i + 1 < 2 ^ LENGTH(32)" "j + 1 < 2 ^ LENGTH(32)" using assms(1,2) by simp_all
  then have "unat (of_nat (i + 1) :: uint32_t) = i + 1" "unat (of_nat (j + 1) :: uint32_t) = j + 1"
    by (simp_all only: unat_of_nat mod_less)
  with assms(3) show ?thesis by simp
qed

lemma local_id_nonzero: "i < 2 ^ 15 \<Longrightarrow> (of_nat (i + 1) :: uint32_t) \<noteq> 0"
  by (rule of_nat_neq_0) simp_all

section \<open>Claims\<close>

text \<open>
  C1. The first thing \<open>adb_writeMessage\<close> hands to the USB layer is a 24-byte header.
  Whenever a bulk read delivers exactly these 24 bytes, \<open>adb_pollMessage\<close> returns the
  message whose command and arguments are the ones written, whose \<open>data_length\<close> is
  the length of the payload and whose \<open>data_check\<close> is the sum of the payload bytes
  modulo \<open>2^32\<close> (0 for the empty payload). The same holds for
  \<open>adb_writeEmptyMessage\<close>, with length 0 and checksum 0. The payload is any byte
  sequence whose length fits the \<open>uint32_t\<close> length argument.
\<close>

theorem C1_header_roundtrip:
  fixes s :: "('c::len, 'w) adb_state"
  assumes "length data < 2 ^ 32"
  shows "(\<exists>hdr rest m.
           trace (snd (adb_writeMessage P device cmd a0 a1 data s))
             = trace s @ BulkWrite device hdr # rest
         \<and> length hdr = 24
         \<and> (\<forall>(Q :: 'v platform) (t :: ('d::len, 'v) adb_state) poll junk w.
               usb_bulkRead Q (adbDevice t) (ADB_USB_PACKETSIZE Q) poll (world t)
                 = ((24, hdr @ junk), w)
               \<longrightarrow> fst (adb_pollMessage Q poll t) = Some m)
         \<and> command m = cmd \<and> arg0 m = a0 \<and> arg1 m = a1
         \<and> unat (data_length m) = length data
         \<and> unat (data_check m) = sum_list (map unat data) mod 2 ^ 32
         \<and> (data = [] \<longrightarrow> data_check m = 0))
       \<and> (\<exists>hdr m.
           trace (snd (adb_writeEmptyMessage P device cmd a0 a1 s))
             = trace s @ [BulkWrite device hdr]
         \<and> length hdr = 24
         \<and> (\<forall>(Q :: 'v platform) (t :: ('d::len, 'v) adb_state) poll junk w.
               usb_bulkRead Q (adbDevice t) (ADB_USB_PACKETSIZE Q) poll (world t)
                 = ((24, hdr @ junk), w)
               \<longrightarrow> fst (adb_pollMessage Q poll t) = Some m)
         \<and> command m = cmd \<and> arg0 m = a0 \<and> arg1 m = a1
         \<and> data_length m = 0 \<and> data_check m = 0)"
proof (rule conjI)
  define m where "m = \<lparr>command = cmd, arg0 = a0, arg1 = a1,
      data_length = of_nat (length data), data_check = data_sum data 0, magic = NOT cmd\<rparr>"
  obtain rest where tr: "trace (snd (adb_writeMessage P device cmd a0 a1 data s))
       = trace s @ BulkWrite device (message_bytes m) # rest"
    using adb_writeMessage_trace [of P device cmd a0 a1 data s] by (auto simp add: m_def)
  have dec: "\<forall>(Q :: 'v platform) (t :: ('d::len, 'v) adb_state) poll junk w.
               usb_bulkRead Q (adbDevice t) (ADB_USB_PACKETSIZE Q) poll (world t)
                 = ((24, message_bytes m @ junk), w)
               \<longrightarrow> fst (adb_pollMessage Q poll t) = Some m"
    by (auto intro!: adb_pollMessage_valid simp add: m_def)
  have fld: "command m = cmd \<and> arg0 m = a0 \<and> arg1 m = a1" by (simp add: m_def)
  have len: "unat (data_length m) = length data"
    using assms by (simp add: m_def unat_of_nat)
  have chk: "unat (data_check m) = sum_list (map unat data) mod 2 ^ 32"
    by (simp add: m_def data_sum_eq unat_of_nat)
  have emp: "data = [] \<longrightarrow> data_check m = 0" by (simp add: m_def)
  from tr dec fld len chk emp length_message_bytes [of m]
  show "\<exists>hdr rest m.
           trace (snd (adb_writeMessage P device cmd a0 a1 data s))
             = trace s @ BulkWrite device hdr # rest
         \<and> length hdr = 24
         \<and> (\<forall>(Q :: 'v platform) (t :: ('d::len, 'v) adb_state) poll junk w.
               usb_bulkRead Q (adbDevice t) (ADB_USB_PACKETSIZE Q) poll (world t)
                 = ((24, hdr @ junk), w)
               \<longrightarrow> fst (adb_pollMessage Q poll t) = Some m)
         \<and> command m = cmd \<and> arg0 m = a0 \<and> arg1 m = a1
         \<and> unat (data_length m) = length data
         \<and> unat (data_check m) = sum_list (map unat data) mod 2 ^ 32
         \<and> (data = [] \<longrightarrow> data_check m = 0)"
    by blast
next
  define m where "m = \<lparr>command = cmd, arg0 = a0, arg1 = a1,
      data_length = 0, data_check = 0, magic = NOT cmd\<rparr>"
  have tr: "trace (snd (adb_writeEmptyMessage P device cmd a0 a1 s))
       = trace s @ [BulkWrite device (message_bytes m)]"
    by (simp add: m_def adb_writeEmptyMessage_trace)
  have dec: "\<forall>(Q :: 'v platform) (t :: ('d::len, 'v) adb_state) poll junk w.
               usb_bulkRead Q (adbDevice t) (ADB_USB_PACKETSIZE Q) poll (world t)
                 = ((24, message_bytes m @ junk), w)
               \<longrightarrow> fst (adb_pollMessage Q poll t) = Some m"
    by (auto intro!: adb_pollMessage_valid simp add: m_def)
  have fld: "command m = cmd \<and> arg0 m = a0 \<and> arg1 m = a1
         \<and> data_length m = 0 \<and> data_check m = 0" by (simp add: m_def)
  from tr dec fld length_message_bytes [of m]
  show "\<exists>hdr m.
           trace (snd (adb_writeEmptyMessage P device cmd a0 a1 s))
             = trace s @ [BulkWrite device hdr]
         \<and> length hdr = 24
         \<and> (\<forall>(Q :: 'v platform) (t :: ('d::len, 'v) adb_state) poll junk w.
               usb_bulkRead Q (adbDevice t) (ADB_USB_PACKETSIZE Q) poll (world t)
                 = ((24, hdr @ junk), w)
               \<longrightarrow> fst (adb_pollMessage Q poll t) = Some m)
         \<and> command m = cmd \<and> arg0 m = a0 \<and> arg1 m = a1
         \<and> data_length m = 0 \<and> data_check m = 0"
    by blast
qed

theorem C1_header_roundtrip_witness:
  "length [1, 2, 255 :: uint8_t] < 2 ^ 32
   \<and> (\<exists>m. fst (adb_pollMessage loopback_platform True
               (snd (adb_writeMessage loopback_platform (Some 1) 0x45545257 5 9 [1, 2, 255]
                      loopback_state))) = Some m
          \<and> command m = 0x45545257 \<and> arg0 m = 5 \<and> arg1 m = 9
          \<and> unat (data_length m) = 3 \<and> unat (data_check m) = 258)"
proof -
  let ?data = "[1, 2, 255 :: uint8_t]"
  define s1 where
    "s1 = snd (adb_writeMessage loopback_platform (Some 1) 0x45545257 5 9 ?data loopback_state)"
  have h: "length ?data < 2 ^ 32" by simp
  from C1_header_roundtrip [OF h, of loopback_platform "Some 1" "0x45545257" 5 9 loopback_state,
      where ?'v = "uint8_t list list" and ?'d = 16]
  obtain hdr rest m where
    tr: "trace s1 = trace loopback_state @ BulkWrite (Some 1) hdr # rest"
    and len: "length hdr = 24"
    and dec: "\<forall>(Q :: (uint8_t list list) platform) (t :: (16, uint8_t list list) adb_state)
                poll junk w.
               usb_bulkRead Q (adbDevice t) (ADB_USB_PACKETSIZE Q) poll (world t)
                 = ((24, hdr @ junk), w)
               \<longrightarrow> fst (adb_pollMessage Q poll t) = Some m"
    and fld: "command m = 0x45545257" "arg0 m = 5" "arg1 m = 9"
      "unat (data_length m) = length ?data"
      "unat (data_check m) = sum_list (map unat ?data) mod 2 ^ 32"
    unfolding s1_def by blast
  have w: "world s1 = map (\<lambda>a. case a of BulkWrite d bs \<Rightarrow> bs | _ \<Rightarrow> []) (trace s1)"
    by (simp add: s1_def adb_writeMessage_def bulkWrite_def Let_def loopback_platform_def
        loopback_state_def)
  have t0: "trace loopback_state = []" by (simp add: loopback_state_def)
  have rd: "usb_bulkRead loopback_platform (adbDevice s1) (ADB_USB_PACKETSIZE loopback_platform)
              True (world s1)
            = ((24, hdr @ []), map (\<lambda>a. case a of BulkWrite d bs \<Rightarrow> bs | _ \<Rightarrow> []) rest)"
    by (simp add: w tr t0 len loopback_platform_def)
  from dec [rule_format, OF rd] have "fst (adb_pollMessage loopback_platform True s1) = Some m" .
  with fld h show ?thesis unfolding s1_def by simp
qed

text \<open>
  C2. With a packet size of 64 and bulk reads that return exactly the count requested,
  \<open>adb_handleWrite\<close> on a frame with \<open>data_length = 130\<close> returns, and what it adds to
  the trace is: three \<open>ADB_CONNECTION_RECEIVE\<close> events of lengths 64, 64 and 2, then one
  bulk write of the header \<open>OKAY(arg1, arg0)\<close> with no payload. The status of the
  connection afterwards is its status before the call.
\<close>

theorem C2_reassembly_130:
  fixes s :: "('c::len, 'w) adb_state"
  assumes "ADB_USB_PACKETSIZE P = 64"
    and "\<forall>device len poll w. fst (fst (usb_bulkRead P device len poll w)) = int len"
    and "data_length message = 130"
    and "i < length (connections s)"
  shows "\<exists>s' b1 h1 b2 h2 b3 h3.
           adb_handleWrite P i message s = Some s'
         \<and> trace s' = trace s @
             [Event (Some i) ADB_CONNECTION_RECEIVE 64 b1 h1,
              Event (Some i) ADB_CONNECTION_RECEIVE 64 b2 h2,
              Event (Some i) ADB_CONNECTION_RECEIVE 2 b3 h3,
              BulkWrite (adbDevice s)
                (message_bytes
                   \<lparr>command = A_OKAY P, arg0 = arg1 message, arg1 = arg0 message,
                    data_length = 0, data_check = 0, magic = NOT (A_OKAY P)\<rparr>)]
         \<and> status (connections s' ! i) = status (connections s ! i)"
proof -
  define s0 where "s0 = update_connection i
                 (\<lambda>c. c\<lparr>status := ADB_RECEIVING, dataRead := 0,
                         dataSize := ucast (data_length message)\<rparr>) s"
  define s1 where "s1 = snd (adb_handleWrite_body P i 130 s0)"
  define s2 where "s2 = snd (adb_handleWrite_body P i 66 s1)"
  define s3 where "s3 = snd (adb_handleWrite_body P i 2 s2)"
  have f1: "fst (adb_handleWrite_body P i 130 t) = 66" for t :: "('c, 'w) adb_state"
    using assms(1,2) by (simp add: adb_handleWrite_body_fst)
  have f2: "fst (adb_handleWrite_body P i 66 t) = 2" for t :: "('c, 'w) adb_state"
    using assms(1,2) by (simp add: adb_handleWrite_body_fst)
  have f3: "fst (adb_handleWrite_body P i 2 t) = 0" for t :: "('c, 'w) adb_state"
    using assms(1,2) by (simp add: adb_handleWrite_body_fst)
  have loop: "adb_handleWrite_loop P i 130 s0 = Some s3"
    using adb_handleWrite_loop_unfold [of 130 P i s0]
      adb_handleWrite_loop_unfold [of 66 P i s1]
      adb_handleWrite_loop_unfold [of 2 P i s2]
    by (simp add: f1 f2 f3 s1_def s2_def s3_def adb_handleWrite_loop_done)
  obtain b1 h1 where t1: "trace s1 = trace s0 @ [Event (Some i) ADB_CONNECTION_RECEIVE 64 b1 h1]"
    using adb_handleWrite_body_trace [of P i 130 s0] assms(1) by (auto simp add: s1_def)
  obtain b2 h2 where t2: "trace s2 = trace s1 @ [Event (Some i) ADB_CONNECTION_RECEIVE 64 b2 h2]"
    using adb_handleWrite_body_trace [of P i 66 s1] assms(1) by (auto simp add: s2_def)
  obtain b3 h3 where t3: "trace s3 = trace s2 @ [Event (Some i) ADB_CONNECTION_RECEIVE 2 b3 h3]"
    using adb_handleWrite_body_trace [of P i 2 s2] assms(1) by (auto simp add: s3_def)
  have t0: "trace s0 = trace s" by (simp add: s0_def update_connection_frame)
  have dev: "adbDevice s3 = adbDevice s"
    by (simp add: s3_def s2_def s1_def s0_def adb_handleWrite_body_frame update_connection_frame)
  have len: "i < length (connections s3)"
    using assms(4)
    by (simp add: s3_def s2_def s1_def s0_def adb_handleWrite_body_frame update_connection_frame)
  define s' where "s' = update_connection i (\<lambda>c. c\<lparr>status := status (connections s ! i)\<rparr>)
      (snd (adb_writeEmptyMessage P (adbDevice s3) (A_OKAY P) (arg1 message) (arg0 message) s3))"
  have loop': "adb_handleWrite_loop P i (data_length message) s0 = Some s3"
    using loop assms(3) by simp
  have r: "adb_handleWrite P i message s = Some s'"
    unfolding adb_handleWrite_def Let_def s0_def [symmetric]
    by (simp add: loop' s'_def case_prod_unfold)
  have tr: "trace s' = trace s3 @
      [BulkWrite (adbDevice s)
         (message_bytes
            \<lparr>command = A_OKAY P, arg0 = arg1 message, arg1 = arg0 message,
             data_length = 0, data_check = 0, magic = NOT (A_OKAY P)\<rparr>)]"
    by (simp add: s'_def update_connection_frame adb_writeEmptyMessage_def bulkWrite_frame dev
        xor_ffffffff)
  have st: "status (connections s' ! i) = status (connections s ! i)"
    using len by (simp add: s'_def update_connection_frame adb_writeEmptyMessage_frame)
  from r tr st t0 t1 t2 t3 show ?thesis by simp
qed

theorem C2_reassembly_130_witness:
  "ADB_USB_PACKETSIZE exact_platform = 64
   \<and> (\<forall>device len poll w. fst (fst (usb_bulkRead exact_platform device len poll w)) = int len)
   \<and> data_length write_130 = 130
   \<and> 0 < length (connections open_state)
   \<and> (\<exists>s' b1 h1 b2 h2 b3 h3.
         adb_handleWrite exact_platform 0 write_130 open_state = Some s'
       \<and> trace s' =
           [Event (Some 0) ADB_CONNECTION_RECEIVE 64 b1 h1,
            Event (Some 0) ADB_CONNECTION_RECEIVE 64 b2 h2,
            Event (Some 0) ADB_CONNECTION_RECEIVE 2 b3 h3,
            BulkWrite (Some 1)
              (message_bytes
                 \<lparr>command = 0x59414b4f, arg0 = 1, arg1 = 7,
                  data_length = 0, data_check = 0, magic = NOT 0x59414b4f\<rparr>)]
       \<and> status (connections s' ! 0) = ADB_OPEN)"
proof -
  have h1: "ADB_USB_PACKETSIZE exact_platform = 64"
    by (simp add: exact_platform_def scripted_platform_def)
  have h2: "\<forall>device len poll w. fst (fst (usb_bulkRead exact_platform device len poll w)) = int len"
    by (simp add: exact_platform_def scripted_platform_def)
  have h3: "data_length write_130 = 130" by (simp add: write_130_def)
  have h4: "0 < length (connections open_state)"
    by (simp add: open_state_def example_state_def)
  have e: "trace open_state = []" "adbDevice open_state = Some 1"
    "status (connections open_state ! 0) = ADB_OPEN"
    "A_OKAY exact_platform = 0x59414b4f" "arg1 write_130 = 1" "arg0 write_130 = 7"
    by (simp_all add: open_state_def example_state_def unused_connection_def exact_platform_def
        scripted_platform_def write_130_def)
  from C2_reassembly_130 [OF h1 h2 h3 h4] h1 h2 h3 h4 show ?thesis
    by (simp only: e append_Nil simp_thms)
qed

text \<open>
  C3. Start with every slot \<open>ADB_UNUSED\<close> and run any sequence of calls of the entry
  points that returns. In the state reached, no two slots in use have the same
  \<open>localID\<close>; the \<open>localID\<close> of a slot in use is its index plus one and is not zero; in
  every state reached later in which the slot is in use its \<open>localID\<close> is the same; and
  when slot \<open>i\<close> is the first unused slot, \<open>adb_addConnection\<close> with a string that fits
  claims slot \<open>i\<close> and gives it \<open>localID = i + 1\<close> again.
\<close>

theorem C3_local_id_unique:
  fixes s0 :: "('c::len, 'w) adb_state"
  assumes "ADB_MAX_CONNECTIONS P < 2 ^ 15"
    and "length (connections s0) = ADB_MAX_CONNECTIONS P"
    and "list_all (\<lambda>c. status c = ADB_UNUSED) (connections s0)"
    and "run P calls s0 = Some s"
  shows "(\<forall>i<ADB_MAX_CONNECTIONS P. \<forall>j<ADB_MAX_CONNECTIONS P.
            status (connections s ! i) \<noteq> ADB_UNUSED \<and> status (connections s ! j) \<noteq> ADB_UNUSED
            \<and> localID (connections s ! i) = localID (connections s ! j) \<longrightarrow> i = j)
       \<and> (\<forall>i<ADB_MAX_CONNECTIONS P. status (connections s ! i) \<noteq> ADB_UNUSED \<longrightarrow>
            localID (connections s ! i) = of_nat (i + 1) \<and> localID (connections s ! i) \<noteq> 0)
       \<and> (\<forall>later s' i.
            run P later s = Some s' \<and> i < ADB_MAX_CONNECTIONS P
            \<and> status (connections s ! i) \<noteq> ADB_UNUSED \<and> status (connections s' ! i) \<noteq> ADB_UNUSED
            \<longrightarrow> localID (connections s' ! i) = localID (connections s ! i))
       \<and> (\<forall>i str rc handler.
            i < ADB_MAX_CONNECTIONS P \<and> status (connections s ! i) = ADB_UNUSED
            \<and> (\<forall>j<i. status (connections s ! j) \<noteq> ADB_UNUSED)
            \<and> length str + 1 \<le> ADB_CONNECTSTRING_LENGTH P
            \<longrightarrow> fst (adb_addConnection P str rc handler s) = Some i
              \<and> localID (connections (snd (adb_addConnection P str rc handler s)) ! i)
                  = of_nat (i + 1)
              \<and> status (connections (snd (adb_addConnection P str rc handler s)) ! i)
                  = ADB_CLOSED)"
proof -
  have inv0: "pool_inv (ADB_MAX_CONNECTIONS P) (connections s0)"
    using assms(2,3) by (rule pool_inv_all_unused)
  have inv: "pool_inv (ADB_MAX_CONNECTIONS P) (connections s)"
    using inv0 assms(4) by (rule run_pool_inv)
  have len: "length (connections s) = ADB_MAX_CONNECTIONS P"
    using inv by (simp add: pool_inv_def)
  have id: "localID (connections s ! i) = of_nat (i + 1)"
    if "i < ADB_MAX_CONNECTIONS P" "status (connections s ! i) \<noteq> ADB_UNUSED" for i
    using inv that by (simp add: pool_inv_def)
  have small: "i < 2 ^ 15" if "i < ADB_MAX_CONNECTIONS P" for i
    using that assms(1) by simp
  have uniq: "\<forall>i<ADB_MAX_CONNECTIONS P. \<forall>j<ADB_MAX_CONNECTIONS P.
            status (connections s ! i) \<noteq> ADB_UNUSED \<and> status (connections s ! j) \<noteq> ADB_UNUSED
            \<and> localID (connections s ! i) = localID (connections s ! j) \<longrightarrow> i = j"
  proof (intro allI impI)
    fix i j
    assume i: "i < ADB_MAX_CONNECTIONS P" and j: "j < ADB_MAX_CONNECTIONS P"
      and u: "status (connections s ! i) \<noteq> ADB_UNUSED \<and> status (connections s ! j) \<noteq> ADB_UNUSED
            \<and> localID (connections s ! i) = localID (connections s ! j)"
    from u id [OF i] id [OF j]
    have "(of_nat (i + 1) :: uint32_t) = of_nat (j + 1)" by simp
    from local_id_inj [OF small [OF i] small [OF j] this] show "i = j" .
  qed
  have val: "\<forall>i<ADB_MAX_CONNECTIONS P. status (connections s ! i) \<noteq> ADB_UNUSED \<longrightarrow>
            localID (connections s ! i) = of_nat (i + 1) \<and> localID (connections s ! i) \<noteq> 0"
    using id local_id_nonzero [OF small] by simp
  have stable: "\<forall>later s' i.
            run P later s = Some s' \<and> i < ADB_MAX_CONNECTIONS P
            \<and> status (connections s ! i) \<noteq> ADB_UNUSED \<and> status (connections s' ! i) \<noteq> ADB_UNUSED
            \<longrightarrow> localID (connections s' ! i) = localID (connections s ! i)"
  proof (intro allI impI)
    fix later s' i
    assume a: "run P later s = Some s' \<and> i < ADB_MAX_CONNECTIONS P
            \<and> status (connections s ! i) \<noteq> ADB_UNUSED \<and> status (connections s' ! i) \<noteq> ADB_UNUSED"
    then have "pool_inv (ADB_MAX_CONNECTIONS P) (connections s')"
      using run_pool_inv [OF inv] by blast
    with a have "localID (connections s' ! i) = of_nat (i + 1)" by (simp add: pool_inv_def)
    with a id show "localID (connections s' ! i) = localID (connections s ! i)" by simp
  qed
  have reuse: "\<forall>i str rc handler.
            i < ADB_MAX_CONNECTIONS P \<and> status (connections s ! i) = ADB_UNUSED
            \<and> (\<forall>j<i. status (connections s ! j) \<noteq> ADB_UNUSED)
            \<and> length str + 1 \<le> ADB_CONNECTSTRING_LENGTH P
            \<longrightarrow> fst (adb_addConnection P str rc handler s) = Some i
              \<and> localID (connections (snd (adb_addConnection P str rc handler s)) ! i)
                  = of_nat (i + 1)
              \<and> status (connections (snd (adb_addConnection P str rc handler s)) ! i)
                  = ADB_CLOSED"
  proof (intro allI impI)
    fix i rc handler and str :: string
    assume a: "i < ADB_MAX_CONNECTIONS P \<and> status (connections s ! i) = ADB_UNUSED
            \<and> (\<forall>j<i. status (connections s ! j) \<noteq> ADB_UNUSED)
            \<and> length str + 1 \<le> ADB_CONNECTSTRING_LENGTH P"
    then have il: "i < length (connections s)" using len by simp
    have "adb_addConnection P str rc handler s
           = (Some i,
              update_connection i
                (\<lambda>c. c\<lparr>connectionString := str, localID := of_nat (i + 1), status := ADB_CLOSED,
                        lastConnectionAttempt := 0, reconnect := rc,
                        connection_eventHandler := handler\<rparr>) s)"
      using a il
      by (simp add: adb_addConnection_def adb_addConnection_scan_first_unused [of 0 i])
    with il show "fst (adb_addConnection P str rc handler s) = Some i
              \<and> localID (connections (snd (adb_addConnection P str rc handler s)) ! i)
                  = of_nat (i + 1)
              \<and> status (connections (snd (adb_addConnection P str rc handler s)) ! i)
                  = ADB_CLOSED"
      by (simp add: update_connection_frame)
  qed
  from uniq val stable reuse show ?thesis by blast
qed

theorem C3_local_id_unique_witness:
  "ADB_MAX_CONNECTIONS one_slot_platform < 2 ^ 15
   \<and> length (connections one_slot_start) = ADB_MAX_CONNECTIONS one_slot_platform
   \<and> list_all (\<lambda>c. status c = ADB_UNUSED) (connections one_slot_start)
   \<and> (\<exists>s. run one_slot_platform [Call_addConnection ''tcp:1'' False None] one_slot_start = Some s
          \<and> status (connections s ! 0) = ADB_CLOSED
          \<and> localID (connections s ! 0) = 1)
   \<and> (\<exists>s. run one_slot_platform add_open_unplug one_slot_start = Some s
          \<and> status (connections s ! 0) = ADB_UNUSED
          \<and> fst (adb_addConnection one_slot_platform ''tcp:2'' True None s) = Some 0
          \<and> localID (connections (snd (adb_addConnection one_slot_platform ''tcp:2'' True None s))
                ! 0) = 1)"
proof -
  have h1: "ADB_MAX_CONNECTIONS one_slot_platform < 2 ^ 15"
    by (simp add: one_slot_platform_def scripted_platform_def)
  have h2: "length (connections one_slot_start) = ADB_MAX_CONNECTIONS one_slot_platform"
    by (simp add: one_slot_start_def adb_start_def)
  have h3: "list_all (\<lambda>c. status c = ADB_UNUSED) (connections one_slot_start)"
    by (simp add: one_slot_start_def adb_start_def one_slot_platform_def scripted_platform_def)
  have n: "ADB_MAX_CONNECTIONS one_slot_platform = 1"
    "ADB_CONNECTSTRING_LENGTH one_slot_platform = 64"
    by (simp_all add: one_slot_platform_def scripted_platform_def)
  obtain sa where ra: "run one_slot_platform [Call_addConnection ''tcp:1'' False None]
                         one_slot_start = Some sa"
    and sta: "status (connections sa ! 0) = ADB_CLOSED"
    by (simp add: one_slot_start_def one_slot_platform_def adb_start_def
        scripted_platform_def adb_call_def adb_addConnection_def adb_addConnection_scan.simps
        update_connection_def)
  have ida: "localID (connections sa ! 0) = 1"
    using C3_local_id_unique [OF h1 h2 h3 ra] sta by (simp add: n)
  obtain sb where rb: "run one_slot_platform add_open_unplug one_slot_start = Some sb"
    and stb: "status (connections sb ! 0) = ADB_UNUSED"
    by (simp add: add_open_unplug_def one_slot_start_def one_slot_platform_def adb_start_def
        scripted_platform_def adb_call_def adb_addConnection_def adb_addConnection_scan.simps
        update_connection_def adb_poll_def adb_openClosedConnections_def
        adb_openClosedConnections_iter_def adb_writeStringMessage_def adb_writeMessage_def
        bulkWrite_def bulkRead_def adb_pollMessage_def adb_usbEventHandler_def adb_closeAll_def
        adb_closeAll_iter_def adb_handleClose_def adb_fireEvent_def Let_def)
  have "\<forall>i str rc handler.
            i < ADB_MAX_CONNECTIONS one_slot_platform \<and> status (connections sb ! i) = ADB_UNUSED
            \<and> (\<forall>j<i. status (connections sb ! j) \<noteq> ADB_UNUSED)
            \<and> length str + 1 \<le> ADB_CONNECTSTRING_LENGTH one_slot_platform
            \<longrightarrow> fst (adb_addConnection one_slot_platform str rc handler sb) = Some i
              \<and> localID (connections (snd (adb_addConnection one_slot_platform str rc handler sb))
                    ! i) = of_nat (i + 1)
              \<and> status (connections (snd (adb_addConnection one_slot_platform str rc handler sb))
                    ! i) = ADB_CLOSED"
    using C3_local_id_unique [OF h1 h2 h3 rb] by blast
  from this [rule_format, of 0 "''tcp:2''" True None] stb
  have idb: "fst (adb_addConnection one_slot_platform ''tcp:2'' True None sb) = Some 0
     \<and> localID (connections (snd (adb_addConnection one_slot_platform ''tcp:2'' True None sb))
          ! 0) = 1"
    by (simp add: n)
  from h1 h2 h3 ra sta ida rb stb idb show ?thesis by blast
qed

text \<open>
  C4 (as amended). Let slot \<open>i\<close> be \<open>ADB_CLOSED\<close> when \<open>adb_openClosedConnections\<close>
  starts, let \<open>t\<close> be the state when the loop reaches slot \<open>i\<close>, and let \<open>elapsed\<close> be
  the clock read there minus \<open>lastConnectionAttempt\<close>, modulo \<open>2^32\<close>. While
  \<open>elapsed\<close> is at most the retry time the pass for slot \<open>i\<close> only reads the clock: nothing
  is sent and the slot stays \<open>ADB_CLOSED\<close>. Once \<open>elapsed\<close> is greater than the retry
  time the pass sends the \<open>OPEN\<close> header for the slot and the slot becomes
  \<open>ADB_OPENING\<close>. No other pass of the loop touches slot \<open>i\<close>.
\<close>

theorem C4_retry_gate:
  fixes s :: "('c::len, 'w) adb_state"
  assumes "i < ADB_MAX_CONNECTIONS P"
    and "length (connections s) = ADB_MAX_CONNECTIONS P"
    and "status (connections s ! i) = ADB_CLOSED"
    and "t = fold (adb_openClosedConnections_iter P) [0..<i] s"
    and "avr_millis P (world t) = (now, w)"
    and "elapsed = now - lastConnectionAttempt (connections s ! i)"
  shows "adb_openClosedConnections P s
           = fold (adb_openClosedConnections_iter P) [Suc i..<ADB_MAX_CONNECTIONS P]
               (adb_openClosedConnections_iter P i t)
       \<and> (elapsed \<le> ADB_CONNECTION_RETRY_TIME P \<longrightarrow>
            adb_openClosedConnections_iter P i t = t\<lparr>world := w\<rparr>)
       \<and> (ADB_CONNECTION_RETRY_TIME P < elapsed \<longrightarrow>
            (\<exists>rest. trace (adb_openClosedConnections_iter P i t)
               = trace t @
                 BulkWrite (adbDevice s)
                   (message_bytes
                      \<lparr>command = A_OPEN P, arg0 = localID (connections s ! i), arg1 = 0,
                       data_length = of_nat (length (connectionString (connections s ! i)) + 1),
                       data_check = data_sum (string_bytes (connectionString (connections s ! i))) 0,
                       magic = NOT (A_OPEN P)\<rparr>) # rest))
       \<and> status (connections (adb_openClosedConnections P s) ! i)
           = (if ADB_CONNECTION_RETRY_TIME P < elapsed then ADB_OPENING else ADB_CLOSED)"
proof -
  have ci: "connections t ! i = connections s ! i"
    using assms(4) by (simp add: fold_adb_openClosedConnections_iter_other)
  have len: "i < length (connections t)"
    using assms(1,2,4) by (simp add: fold_adb_openClosedConnections_iter_length)
  have dev: "adbDevice t = adbDevice s"
    using assms(4) by (simp add: fold_adb_openClosedConnections_iter_adbDevice)
  have split: "adb_openClosedConnections P s
           = fold (adb_openClosedConnections_iter P) [Suc i..<ADB_MAX_CONNECTIONS P]
               (adb_openClosedConnections_iter P i t)"
    using assms(1,4) by (simp add: adb_openClosedConnections_def upt_split_at [of i])
  have closed: "adb_openClosedConnections_iter P i t = t\<lparr>world := w\<rparr>"
    if "elapsed \<le> ADB_CONNECTION_RETRY_TIME P"
    using that assms(5,6) ci
    by (simp add: adb_openClosedConnections_iter_def Let_def not_less [symmetric])
  have opened: "\<exists>rest. trace (adb_openClosedConnections_iter P i t)
               = trace t @
                 BulkWrite (adbDevice s)
                   (message_bytes
                      \<lparr>command = A_OPEN P, arg0 = localID (connections s ! i), arg1 = 0,
                       data_length = of_nat (length (connectionString (connections s ! i)) + 1),
                       data_check = data_sum (string_bytes (connectionString (connections s ! i))) 0,
                       magic = NOT (A_OPEN P)\<rparr>) # rest"
    if "ADB_CONNECTION_RETRY_TIME P < elapsed"
    using that assms(3,5,6) ci dev
      adb_writeStringMessage_trace [of P "adbDevice s" "A_OPEN P" "localID (connections s ! i)" 0
        "connectionString (connections s ! i)" "t\<lparr>world := w\<rparr>"]
    by (simp add: adb_openClosedConnections_iter_def Let_def case_prod_unfold
        update_connection_frame)
  have st: "status (connections (adb_openClosedConnections_iter P i t) ! i)
           = (if ADB_CONNECTION_RETRY_TIME P < elapsed then ADB_OPENING else ADB_CLOSED)"
    using assms(3,5,6) ci len
    by (simp add: adb_openClosedConnections_iter_def Let_def case_prod_unfold
        update_connection_frame adb_writeStringMessage_frame)
  have final: "connections (adb_openClosedConnections P s) ! i
           = connections (adb_openClosedConnections_iter P i t) ! i"
    unfolding split by (rule fold_adb_openClosedConnections_iter_other) simp
  from split closed opened st final show ?thesis by simp
qed

theorem C4_retry_gate_witness:
  "status (connections (example_state [unused_connection\<lparr>status := ADB_CLOSED\<rparr>]
             \<lparr>world := 1000\<rparr>) ! 0) = ADB_CLOSED
   \<and> avr_millis (scripted_platform 1 1000 (\<lambda>len. (- 1, [])) 0) 1000 = (1000, 1000)
   \<and> avr_millis (scripted_platform 1 1000 (\<lambda>len. (- 1, [])) 0) 1001 = (1001, 1001)
   \<and> status (connections (adb_openClosedConnections
          (scripted_platform 1 1000 (\<lambda>len. (- 1, [])) 0)
          (example_state [unused_connection\<lparr>status := ADB_CLOSED\<rparr>]\<lparr>world := 1000\<rparr>)) ! 0)
       = ADB_CLOSED
   \<and> status (connections (adb_openClosedConnections
          (scripted_platform 1 1000 (\<lambda>len. (- 1, [])) 0)
          (example_state [unused_connection\<lparr>status := ADB_CLOSED\<rparr>]\<lparr>world := 1001\<rparr>)) ! 0)
       = ADB_OPENING"
proof -
  let ?P = "scripted_platform 1 1000 (\<lambda>len. (- 1, [])) 0"
  let ?s = "\<lambda>now. example_state [unused_connection\<lparr>status := ADB_CLOSED\<rparr>]\<lparr>world := now\<rparr>"
  have h1: "0 < ADB_MAX_CONNECTIONS ?P" by (simp add: scripted_platform_def)
  have h2: "length (connections (?s now)) = ADB_MAX_CONNECTIONS ?P" for now
    by (simp add: scripted_platform_def example_state_def)
  have h3: "status (connections (?s now) ! 0) = ADB_CLOSED" for now
    by (simp add: example_state_def unused_connection_def)
  have h4: "?s now = fold (adb_openClosedConnections_iter ?P) [0..<0] (?s now)" for now
    by simp
  have h5: "avr_millis ?P (world (?s now)) = (now, now)" for now
    by (simp add: scripted_platform_def example_state_def)
  have h6: "now = now - lastConnectionAttempt (connections (?s now) ! 0)" for now
    by (simp add: example_state_def unused_connection_def)
  have a: "status (connections (adb_openClosedConnections ?P (?s 1000)) ! 0)
           = (if ADB_CONNECTION_RETRY_TIME ?P < 1000 then ADB_OPENING else ADB_CLOSED)"
    by (rule conjunct2 [OF conjunct2 [OF conjunct2
          [OF C4_retry_gate [OF h1 h2 h3 h4 h5 h6, of 1000]]]])
  have b: "status (connections (adb_openClosedConnections ?P (?s 1001)) ! 0)
           = (if ADB_CONNECTION_RETRY_TIME ?P < 1001 then ADB_OPENING else ADB_CLOSED)"
    by (rule conjunct2 [OF conjunct2 [OF conjunct2
          [OF C4_retry_gate [OF h1 h2 h3 h4 h5 h6, of 1001]]]])
  have r: "ADB_CONNECTION_RETRY_TIME ?P = 1000" by (simp add: scripted_platform_def)
  have m: "avr_millis ?P now = (now, now)" for now by (simp add: scripted_platform_def)
  from a b r h3 [of 1000] m [of 1000] m [of 1001] show ?thesis by simp
qed

text \<open>
  The claim as stated makes the connection eligible at the moment the retry time has
  elapsed. With a retry time of 1000, a last attempt at 0 and the clock at exactly 1000,
  a whole poll step sends nothing and leaves the connection \<open>ADB_CLOSED\<close>.
\<close>

theorem C4_retry_gate_counterexample:
  "status (connections (example_state [unused_connection\<lparr>status := ADB_CLOSED\<rparr>]
             \<lparr>world := 1000\<rparr>) ! 0) = ADB_CLOSED
   \<and> fst (avr_millis (scripted_platform 1 1000 (\<lambda>len. (- 1, [])) 0) 1000)
        - lastConnectionAttempt (connections (example_state
            [unused_connection\<lparr>status := ADB_CLOSED\<rparr>]\<lparr>world := 1000\<rparr>) ! 0)
       = ADB_CONNECTION_RETRY_TIME (scripted_platform 1 1000 (\<lambda>len. (- 1, [])) 0)
   \<and> adb_poll (scripted_platform 1 1000 (\<lambda>len. (- 1, [])) 0)
         (example_state [unused_connection\<lparr>status := ADB_CLOSED\<rparr>]\<lparr>world := 1000\<rparr>)
       = Some (example_state [unused_connection\<lparr>status := ADB_CLOSED\<rparr>]\<lparr>world := 1000\<rparr>)
   \<and> trace (example_state [unused_connection\<lparr>status := ADB_CLOSED\<rparr>]\<lparr>world := 1000\<rparr>) = []"
  by (simp add: adb_poll_def adb_openClosedConnections_def adb_openClosedConnections_iter_def
      adb_pollMessage_def bulkRead_def scripted_platform_def example_state_def
      unused_connection_def Let_def)

text \<open>
  C5 (as amended). On \<open>USB_DISCONNECT\<close> for the device in use, \<open>adb_usbEventHandler\<close>
  fires one event for each slot whose status is neither \<open>ADB_UNUSED\<close> nor
  \<open>ADB_CLOSED\<close>, in slot order, and none for the other slots; the event is
  \<open>ADB_CONNECTION_FAILED\<close> for a slot that was \<open>ADB_OPENING\<close> and
  \<open>ADB_CONNECTION_CLOSE\<close> otherwise. Afterwards \<open>connected\<close> is false and \<open>adbDevice\<close>
  is \<open>NULL\<close>. Each slot that got an event ends \<open>ADB_CLOSED\<close> if it is persistent and
  \<open>ADB_UNUSED\<close> if not; the other slots are untouched.
\<close>

theorem C5_device_disconnect:
  fixes s :: "('c::len, 'w) adb_state"
  assumes "device = adbDevice s"
    and "length (connections s) = ADB_MAX_CONNECTIONS P"
    and "s' = adb_usbEventHandler P device USB_DISCONNECT s"
  shows "connected s' = False \<and> adbDevice s' = None
       \<and> trace s' = trace s @
           map (\<lambda>i. Event (Some i)
                  (if status (connections s ! i) = ADB_OPENING then ADB_CONNECTION_FAILED
                   else ADB_CONNECTION_CLOSE) 0 [] (event_handlers (Some i) s))
             (filter (\<lambda>i. status (connections s ! i) \<noteq> ADB_UNUSED
                          \<and> status (connections s ! i) \<noteq> ADB_CLOSED)
                [0..<ADB_MAX_CONNECTIONS P])
       \<and> (\<forall>i<ADB_MAX_CONNECTIONS P.
             connections s' ! i
               = (if status (connections s ! i) \<noteq> ADB_UNUSED
                     \<and> status (connections s ! i) \<noteq> ADB_CLOSED
                  then (connections s ! i)
                         \<lparr>status := (if reconnect (connections s ! i) then ADB_CLOSED
                                     else ADB_UNUSED)\<rparr>
                  else connections s ! i))"
proof -
  have s': "s' = (adb_closeAll P s)\<lparr>adbDevice := None, connected := False\<rparr>"
    using assms(1,3) by (simp add: adb_usbEventHandler_def)
  have tr: "trace s' = trace (fold adb_closeAll_iter [0..<ADB_MAX_CONNECTIONS P] s)"
    and cs: "connections s' = connections (fold adb_closeAll_iter [0..<ADB_MAX_CONNECTIONS P] s)"
    by (simp_all add: s' adb_closeAll_def)
  have st: "connections s' ! i
               = (if status (connections s ! i) \<noteq> ADB_UNUSED
                     \<and> status (connections s ! i) \<noteq> ADB_CLOSED
                  then (connections s ! i)
                         \<lparr>status := (if reconnect (connections s ! i) then ADB_CLOSED
                                     else ADB_UNUSED)\<rparr>
                  else connections s ! i)"
    if "i < ADB_MAX_CONNECTIONS P" for i
    unfolding cs
    by (rule fold_adb_closeAll_iter_same) (use that assms(2) in simp_all)
  from st show ?thesis
    by (simp add: s' tr [unfolded s'] fold_adb_closeAll_iter_trace)
qed

theorem C5_device_disconnect_witness:
  "length (connections three_connections)
     = ADB_MAX_CONNECTIONS (scripted_platform 3 1000 (\<lambda>len. (- 1, [])) 0)
   \<and> connected (adb_usbEventHandler (scripted_platform 3 1000 (\<lambda>len. (- 1, [])) 0)
        (adbDevice three_connections) USB_DISCONNECT three_connections) = False
   \<and> adbDevice (adb_usbEventHandler (scripted_platform 3 1000 (\<lambda>len. (- 1, [])) 0)
        (adbDevice three_connections) USB_DISCONNECT three_connections) = None
   \<and> trace (adb_usbEventHandler (scripted_platform 3 1000 (\<lambda>len. (- 1, [])) 0)
        (adbDevice three_connections) USB_DISCONNECT three_connections)
       = [Event (Some 0) ADB_CONNECTION_CLOSE 0 [] [],
          Event (Some 1) ADB_CONNECTION_CLOSE 0 [] []]
   \<and> status (connections (adb_usbEventHandler (scripted_platform 3 1000 (\<lambda>len. (- 1, [])) 0)
        (adbDevice three_connections) USB_DISCONNECT three_connections) ! 0) = ADB_CLOSED
   \<and> status (connections (adb_usbEventHandler (scripted_platform 3 1000 (\<lambda>len. (- 1, [])) 0)
        (adbDevice three_connections) USB_DISCONNECT three_connections) ! 1) = ADB_UNUSED
   \<and> status (connections (adb_usbEventHandler (scripted_platform 3 1000 (\<lambda>len. (- 1, [])) 0)
        (adbDevice three_connections) USB_DISCONNECT three_connections) ! 2) = ADB_CLOSED"
proof -
  let ?P = "scripted_platform 3 1000 (\<lambda>len. (- 1, [])) 0"
  let ?s' = "adb_usbEventHandler ?P (adbDevice three_connections) USB_DISCONNECT
               three_connections"
  have n: "ADB_MAX_CONNECTIONS ?P = 3" by (simp add: scripted_platform_def)
  have h2: "length (connections three_connections) = ADB_MAX_CONNECTIONS ?P"
    by (simp add: n three_connections_def example_state_def)
  have u: "[0..<3] = [0, 1, 2]" by (simp add: upt_rec)
  note th = C5_device_disconnect [OF refl h2 refl]
  have a: "connected ?s' = False" "adbDevice ?s' = None" using th by simp_all
  have b: "trace ?s' = [Event (Some 0) ADB_CONNECTION_CLOSE 0 [] [],
                        Event (Some 1) ADB_CONNECTION_CLOSE 0 [] []]"
    using th
    by (simp add: n u three_connections_def example_state_def unused_connection_def
        event_handlers_def)
  have c: "\<forall>i<3. connections ?s' ! i
               = (if status (connections three_connections ! i) \<noteq> ADB_UNUSED
                     \<and> status (connections three_connections ! i) \<noteq> ADB_CLOSED
                  then (connections three_connections ! i)
                         \<lparr>status := (if reconnect (connections three_connections ! i)
                                     then ADB_CLOSED else ADB_UNUSED)\<rparr>
                  else connections three_connections ! i)"
    using th unfolding n by blast
  have c0: "status (connections ?s' ! 0) = ADB_CLOSED"
    using c [rule_format, of 0]
    by (simp add: three_connections_def example_state_def unused_connection_def)
  have c1: "status (connections ?s' ! 1) = ADB_UNUSED"
    using c [rule_format, of 1]
    by (simp add: three_connections_def example_state_def unused_connection_def)
  have c2: "status (connections ?s' ! 2) = ADB_CLOSED"
    using c [rule_format, of 2]
    by (simp add: three_connections_def example_state_def unused_connection_def)
  from h2 a b c0 c1 c2 show ?thesis by simp
qed

text \<open>
  The claim as stated has \<open>CONNECTION_CLOSE\<close> fired for every connection that is
  neither unused nor closed. For a connection that is being opened the only event
  fired on disconnect is \<open>ADB_CONNECTION_FAILED\<close>.
\<close>

theorem C5_opening_counterexample:
  "status (connections opening_state ! 0) = ADB_OPENING
   \<and> trace (adb_usbEventHandler (scripted_platform 1 1000 (\<lambda>len. (- 1, [])) 0)
        (adbDevice opening_state) USB_DISCONNECT opening_state)
       = [Event (Some 0) ADB_CONNECTION_FAILED 0 [] []]"
  by (simp add: adb_usbEventHandler_def adb_closeAll_def adb_closeAll_iter_def
      adb_handleClose_def adb_fireEvent_def event_handlers_def update_connection_def
      opening_state_def example_state_def unused_connection_def scripted_platform_def Let_def)

text \<open>
  C6. Whatever a bulk read delivers, if the magic field of the bytes read as a header is
  not the bitwise complement of the command field, \<open>adb_pollMessage\<close> returns false
  (no message), whatever the other fields and the number of bytes read are.
\<close>

theorem C6_magic_mismatch_rejected:
  fixes s :: "('c::len, 'w) adb_state"
  assumes "usb_bulkRead P (adbDevice s) (ADB_USB_PACKETSIZE P) poll (world s)
             = ((bytesRead, buf), w)"
    and "magic (message_of_bytes buf) \<noteq> NOT (command (message_of_bytes buf))"
  shows "fst (adb_pollMessage P poll s) = None"
  using assms
  by (simp add: adb_pollMessage_def bulkRead_def xor_ffffffff Let_def)

theorem C6_magic_mismatch_rejected_witness:
  "usb_bulkRead (scripted_platform 4 1000 (\<lambda>len. (24, replicate 24 0)) 0)
       (adbDevice (example_state [])) 64 True (world (example_state []))
     = ((24, replicate 24 0), 0)
   \<and> magic (message_of_bytes (replicate 24 0))
       \<noteq> NOT (command (message_of_bytes (replicate 24 0)))
   \<and> fst (adb_pollMessage (scripted_platform 4 1000 (\<lambda>len. (24, replicate 24 0)) 0) True
            (example_state [])) = None"
proof -
  have r: "usb_bulkRead (scripted_platform 4 1000 (\<lambda>len. (24, replicate 24 0)) 0)
       (adbDevice (example_state []))
       (ADB_USB_PACKETSIZE (scripted_platform 4 1000 (\<lambda>len. (24, replicate 24 0)) 0))
       True (world (example_state []))
     = ((24, replicate 24 0), 0)"
    by (simp add: scripted_platform_def example_state_def)
  have m: "magic (message_of_bytes (replicate 24 0))
       \<noteq> NOT (command (message_of_bytes (replicate 24 0)))"
    by (simp add: message_of_bytes_def numeral_eq_Suc)
  from C6_magic_mismatch_rejected [OF r m] r m show ?thesis
    by (simp add: scripted_platform_def)
qed

text \<open>
  C7. In a pass of the reassembly loop whose bulk read returns fewer bytes than the
  \<open>len\<close> requested, \<open>dataRead\<close> still grows by \<open>len\<close> and the event carries \<open>len\<close>
  bytes, while \<open>bytesLeft\<close> shrinks by the number returned; the loop goes on with the
  next pass.
\<close>

theorem C7_short_read_accounting:
  fixes s :: "('c::len, 'w) adb_state"
  assumes "0 < bytesLeft"
    and "len = (if unat bytesLeft < ADB_USB_PACKETSIZE P then unat bytesLeft
                else ADB_USB_PACKETSIZE P)"
    and "usb_bulkRead P (adbDevice s) len False (world s) = ((bytesRead, buf), w)"
    and "bytesRead < int len"
    and "i < length (connections s)"
  shows "dataRead (connections (snd (adb_handleWrite_body P i bytesLeft s)) ! i)
           = dataRead (connections s ! i) + of_nat len
       \<and> fst (adb_handleWrite_body P i bytesLeft s) = bytesLeft - of_int bytesRead
       \<and> (\<exists>hs. trace (snd (adb_handleWrite_body P i bytesLeft s))
             = trace s @ [Event (Some i) ADB_CONNECTION_RECEIVE (of_nat len) (take len buf) hs])
       \<and> adb_handleWrite_loop P i bytesLeft s
           = adb_handleWrite_loop P i (bytesLeft - of_int bytesRead)
               (snd (adb_handleWrite_body P i bytesLeft s))"
proof -
  have b: "fst (adb_handleWrite_body P i bytesLeft s) = bytesLeft - of_int bytesRead"
    using assms(2,3) by (simp add: adb_handleWrite_body_def bulkRead_def Let_def)
  have d: "dataRead (connections (snd (adb_handleWrite_body P i bytesLeft s)) ! i)
           = dataRead (connections s ! i) + of_nat len"
    using assms(2,3,5)
    by (simp add: adb_handleWrite_body_def bulkRead_def Let_def adb_fireEvent_frame
        update_connection_frame)
  have t: "\<exists>hs. trace (snd (adb_handleWrite_body P i bytesLeft s))
             = trace s @ [Event (Some i) ADB_CONNECTION_RECEIVE (of_nat len) (take len buf) hs]"
    using assms(2,3)
    by (simp add: adb_handleWrite_body_def bulkRead_def Let_def adb_fireEvent_def
        update_connection_def)
  from adb_handleWrite_loop_unfold [OF assms(1), of P i s] b d t show ?thesis by simp
qed

theorem C7_short_read_accounting_witness:
  "0 < (10 :: uint32_t)
   \<and> usb_bulkRead (scripted_platform 1 1000 (\<lambda>len. (3, replicate 64 7)) 0)
        (adbDevice (example_state [unused_connection\<lparr>status := ADB_RECEIVING\<rparr>])) 10 False
        (world (example_state [unused_connection\<lparr>status := ADB_RECEIVING\<rparr>]))
       = ((3, replicate 64 7), 0)
   \<and> (3 :: int) < int 10
   \<and> dataRead (connections (snd (adb_handleWrite_body
          (scripted_platform 1 1000 (\<lambda>len. (3, replicate 64 7)) 0) 0 10
          (example_state [unused_connection\<lparr>status := ADB_RECEIVING\<rparr>]))) ! 0) = 10
   \<and> fst (adb_handleWrite_body
          (scripted_platform 1 1000 (\<lambda>len. (3, replicate 64 7)) 0) 0 10
          (example_state [unused_connection\<lparr>status := ADB_RECEIVING\<rparr>])) = 7"
proof -
  let ?P = "scripted_platform 1 1000 (\<lambda>len. (3, replicate 64 7)) 0"
  let ?s = "example_state [unused_connection\<lparr>status := ADB_RECEIVING\<rparr>]"
  have h1: "0 < (10 :: uint32_t)" by simp
  have h2: "(10 :: nat) = (if unat (10 :: uint32_t) < ADB_USB_PACKETSIZE ?P
                then unat (10 :: uint32_t) else ADB_USB_PACKETSIZE ?P)"
    by (simp add: scripted_platform_def)
  have h3: "usb_bulkRead ?P (adbDevice ?s) 10 False (world ?s) = ((3, replicate 64 7), 0)"
    by (simp add: scripted_platform_def example_state_def)
  have h4: "(3 :: int) < int 10" by simp
  have h5: "0 < length (connections ?s)" by (simp add: example_state_def)
  from C7_short_read_accounting [OF h1 h2 h3 h4 h5] h1 h3 h4 show ?thesis
    by (simp add: example_state_def unused_connection_def)
qed

text \<open>
  C8 (as amended). A write to a connection whose status is not \<open>ADB_OPEN\<close> fails
  and leaves the whole state, trace included, as it was: no byte reaches the USB layer.
  The result is \<open>-1\<close> when there is no device or the device is not connected, since
  that test comes first, and \<open>-2\<close> (not open) otherwise.
\<close>

theorem C8_not_open_write_fails:
  fixes s :: "('c::len, 'w) adb_state"
  assumes "status (connections s ! i) \<noteq> ADB_OPEN"
  shows "adb_write P i data s = (if adbDevice s = None \<or> \<not> connected s then - 1 else - 2, s)
       \<and> adb_writeString P i str s
           = (if adbDevice s = None \<or> \<not> connected s then - 1 else - 2, s)"
  using assms by (simp add: adb_write_def adb_writeString_def)

theorem C8_not_open_write_fails_witness:
  "status (connections (example_state [unused_connection\<lparr>status := ADB_WRITING\<rparr>]) ! 0) \<noteq> ADB_OPEN
   \<and> adb_write (scripted_platform 1 1000 (\<lambda>len. (0, [])) 0) 0 [1, 2]
         (example_state [unused_connection\<lparr>status := ADB_WRITING\<rparr>])
       = (- 2, example_state [unused_connection\<lparr>status := ADB_WRITING\<rparr>])
   \<and> adb_writeString (scripted_platform 1 1000 (\<lambda>len. (0, [])) 0) 0 ''ab''
         (example_state [unused_connection\<lparr>status := ADB_WRITING\<rparr>])
       = (- 2, example_state [unused_connection\<lparr>status := ADB_WRITING\<rparr>])"
proof -
  have h: "status (connections (example_state [unused_connection\<lparr>status := ADB_WRITING\<rparr>]) ! 0)
             \<noteq> ADB_OPEN"
    by (simp add: example_state_def unused_connection_def)
  from C8_not_open_write_fails [OF h, of "scripted_platform 1 1000 (\<lambda>len. (0, [])) 0" "[1, 2]" "''ab''"] h
  show ?thesis by (simp add: example_state_def)
qed

text \<open>
  The claim as stated promises the not-open result \<open>-2\<close> for every connection that
  is not open. With the device not connected the result is \<open>-1\<close>.
\<close>

theorem C8_not_open_error_counterexample:
  "status (connections ((example_state [unused_connection\<lparr>status := ADB_CLOSED\<rparr>])
                          \<lparr>connected := False\<rparr>) ! 0) \<noteq> ADB_OPEN
   \<and> fst (adb_write (scripted_platform 1 1000 (\<lambda>len. (0, [])) 0) 0 [1, 2]
            ((example_state [unused_connection\<lparr>status := ADB_CLOSED\<rparr>])\<lparr>connected := False\<rparr>))
       \<noteq> - 2"
  by (simp add: adb_write_def example_state_def unused_connection_def)



text \<open>
  C10 (as amended). If the packet size is positive and every bulk read returns a
  positive count no larger than the count requested, \<open>adb_handleWrite\<close> returns for
  every declared \<open>data_length\<close>. A pass of the loop whose read returns a count that is
  not negative subtracts that count from \<open>bytesLeft\<close>, modulo \<open>2^32\<close>. If every read
  returns 0 and \<open>data_length\<close> is not 0, \<open>bytesLeft\<close> never changes and
  \<open>adb_handleWrite\<close> does not return.
\<close>

theorem C10_reassembly_loop_termination:
  fixes s :: "('c::len, 'w) adb_state"
  shows "(0 < ADB_USB_PACKETSIZE P
          \<and> (\<forall>device len poll w. 0 < len \<longrightarrow>
                0 < fst (fst (usb_bulkRead P device len poll w))
              \<and> fst (fst (usb_bulkRead P device len poll w)) \<le> int len)
          \<longrightarrow> (\<exists>s'. adb_handleWrite P i message s = Some s'))
       \<and> (0 \<le> fst (fst (usb_bulkRead P (adbDevice s)
                 (if unat bytesLeft < ADB_USB_PACKETSIZE P then unat bytesLeft
                  else ADB_USB_PACKETSIZE P) False (world s)))
          \<longrightarrow> fst (adb_handleWrite_body P i bytesLeft s)
                = bytesLeft - of_nat (nat (fst (fst (usb_bulkRead P (adbDevice s)
                    (if unat bytesLeft < ADB_USB_PACKETSIZE P then unat bytesLeft
                     else ADB_USB_PACKETSIZE P) False (world s))))))
       \<and> ((\<forall>device len poll w. fst (fst (usb_bulkRead P device len poll w)) = 0)
          \<and> data_length message \<noteq> 0
          \<longrightarrow> adb_handleWrite P i message s = None)"
proof (intro conjI impI)
  assume a: "0 < ADB_USB_PACKETSIZE P
          \<and> (\<forall>device len poll w. 0 < len \<longrightarrow>
                0 < fst (fst (usb_bulkRead P device len poll w))
              \<and> fst (fst (usb_bulkRead P device len poll w)) \<le> int len)"
  define s0 where "s0 = update_connection i
                 (\<lambda>c. c\<lparr>status := ADB_RECEIVING, dataRead := 0,
                         dataSize := ucast (data_length message)\<rparr>) s"
  from a adb_handleWrite_loop_terminates [of P i "data_length message" s0]
  obtain s2 where "adb_handleWrite_loop P i (data_length message) s0 = Some s2" by blast
  then show "\<exists>s'. adb_handleWrite P i message s = Some s'"
    unfolding adb_handleWrite_def Let_def s0_def [symmetric]
    by (simp add: case_prod_unfold)
next
  assume "0 \<le> fst (fst (usb_bulkRead P (adbDevice s)
                 (if unat bytesLeft < ADB_USB_PACKETSIZE P then unat bytesLeft
                  else ADB_USB_PACKETSIZE P) False (world s)))"
  then show "fst (adb_handleWrite_body P i bytesLeft s)
                = bytesLeft - of_nat (nat (fst (fst (usb_bulkRead P (adbDevice s)
                    (if unat bytesLeft < ADB_USB_PACKETSIZE P then unat bytesLeft
                     else ADB_USB_PACKETSIZE P) False (world s)))))"
    by (simp only: adb_handleWrite_body_fst of_nat_nat)
next
  assume z: "(\<forall>device len poll w. fst (fst (usb_bulkRead P device len poll w)) = 0)
          \<and> data_length message \<noteq> 0"
  define s0 where "s0 = update_connection i
                 (\<lambda>c. c\<lparr>status := ADB_RECEIVING, dataRead := 0,
                         dataSize := ucast (data_length message)\<rparr>) s"
  have "adb_handleWrite_loop P i (data_length message) s0 = None"
  proof (cases "adb_handleWrite_loop P i (data_length message) s0")
    case None
    then show ?thesis .
  next
    case (Some s2)
    from adb_handleWrite_loop_zero_reads [OF _ Some] z show ?thesis by blast
  qed
  then show "adb_handleWrite P i message s = None"
    unfolding adb_handleWrite_def Let_def s0_def [symmetric] by simp
qed

theorem C10_reassembly_loop_termination_witness:
  "0 < ADB_USB_PACKETSIZE exact_platform
   \<and> adb_handleWrite exact_platform 0 write_130 open_state \<noteq> None
   \<and> fst (adb_handleWrite_body exact_platform 0 130 open_state) = 66
   \<and> (\<forall>device len poll w. fst (fst (usb_bulkRead zero_platform device len poll w)) = 0)
   \<and> data_length write_130 \<noteq> 0
   \<and> adb_handleWrite zero_platform 0 write_130 open_state = None"
proof -
  have h1: "0 < ADB_USB_PACKETSIZE exact_platform
          \<and> (\<forall>device len poll w. 0 < len \<longrightarrow>
                0 < fst (fst (usb_bulkRead exact_platform device len poll w))
              \<and> fst (fst (usb_bulkRead exact_platform device len poll w)) \<le> int len)"
    by (simp add: exact_platform_def scripted_platform_def)
  have h2: "(\<forall>device len poll w. fst (fst (usb_bulkRead zero_platform device len poll w)) = 0)
          \<and> data_length write_130 \<noteq> 0"
    by (simp add: zero_platform_def scripted_platform_def write_130_def)
  have a: "adb_handleWrite exact_platform 0 write_130 open_state \<noteq> None"
    using C10_reassembly_loop_termination [of exact_platform 0 write_130 open_state 130] h1
    by auto
  have b: "fst (adb_handleWrite_body exact_platform 0 130 open_state) = 66"
    using C10_reassembly_loop_termination [of exact_platform 0 write_130 open_state 130]
    by (simp add: exact_platform_def scripted_platform_def)
  have c: "adb_handleWrite zero_platform 0 write_130 open_state = None"
    using C10_reassembly_loop_termination [of zero_platform 0 write_130 open_state 130] h2
    by blast
  from h1 h2 a b c show ?thesis by blast
qed

text \<open>
  The claim as stated has the loop run forever once a read returns a negative value.
  With \<open>bytesLeft = 2^32 - 1\<close> and a read that returns \<open>-1\<close>, the subtraction wraps to 0:
  the counter has decreased and \<open>adb_handleWrite\<close> returns after one pass.
\<close>

theorem C10_negative_read_counterexample:
  "fst (fst (usb_bulkRead failing_platform (adbDevice open_state) 64 False (world open_state))) = - 1
   \<and> fst (adb_handleWrite_body failing_platform 0 0xffffffff open_state) = 0
   \<and> adb_handleWrite failing_platform 0 write_max open_state \<noteq> None"
proof -
  define s0 where "s0 = update_connection 0
                 (\<lambda>c. c\<lparr>status := ADB_RECEIVING, dataRead := 0,
                         dataSize := ucast (data_length write_max)\<rparr>) open_state"
  have f: "fst (adb_handleWrite_body failing_platform 0 0xffffffff t) = 0"
    for t :: "(16, uint32_t) adb_state"
    by (simp add: adb_handleWrite_body_fst failing_platform_def scripted_platform_def)
  have "adb_handleWrite_loop failing_platform 0 0xffffffff s0
          = Some (snd (adb_handleWrite_body failing_platform 0 0xffffffff s0))"
    using adb_handleWrite_loop_unfold [of "0xffffffff" failing_platform 0 s0]
    by (simp add: f adb_handleWrite_loop_done)
  moreover have "data_length write_max = 0xffffffff" by (simp add: write_max_def)
  ultimately have "adb_handleWrite failing_platform 0 write_max open_state \<noteq> None"
    unfolding adb_handleWrite_def Let_def s0_def [symmetric]
    by (simp add: case_prod_unfold)
  moreover have "fst (fst (usb_bulkRead failing_platform (adbDevice open_state) 64 False
                   (world open_state))) = - 1"
    by (simp add: failing_platform_def scripted_platform_def)
  ultimately show ?thesis using f by simp
qed

end
